theory Spec2Isabelle
  imports Complex_Main
begin

section \<open>Crossy Road clone: the simulation core of treeenhancedversion.py\<close>

text \<open>
  A shallow embedding of the game's simulation core: obstacles, lanes, the lane streamer
  (World), the player and the per-frame step of Game.  Drawing code is left out.

  Conventions of the embedding.
  \<^item> Python \<open>float\<close> values are idealised as \<open>real\<close>; \<open>int(v)\<close> on a float is
    truncation towards zero (\<open>py_int\<close>), \<open>round(v)\<close> rounds half to even (\<open>py_round\<close>),
    and \<open>//\<close> on integers is \<open>div\<close>.
  \<^item> A \<open>random.Random\<close> object is a sequence of raw draws with a read position;
    every primitive (\<open>random\<close>, \<open>uniform\<close>, \<open>choice\<close>, \<open>randint\<close>) consumes one draw and
    advances the position.  The seeding constructor
    \<open>random.Random(seed)\<close> is library code and is taken as a parameter \<open>Random\<close> of the
    functions that call it.  The module-level generator \<open>random\<close> is a field of the game
    state.
  \<^item> \<open>pygame.Rect\<close> is a record of four integers with the library's documented
    operations; \<open>pygame.time.get_ticks()\<close> is an input \<open>now\<close> of the event handler and the
    frame time \<open>dt\<close> an input of the step.
  \<^item> Methods are named \<open>Class_method\<close>; a leading underscore of the source is dropped.
\<close>

subsection \<open>Config\<close>

abbreviation (input) WINDOW_W :: int where "WINDOW_W \<equiv> 720"
abbreviation (input) WINDOW_H :: int where "WINDOW_H \<equiv> 960"
abbreviation (input) TILE :: int where "TILE \<equiv> 48"
abbreviation (input) GRID_COLS :: int where "GRID_COLS \<equiv> WINDOW_W div TILE"
abbreviation (input) HOP_COOLDOWN_MS :: int where "HOP_COOLDOWN_MS \<equiv> 110"
abbreviation (input) LANE_GRASS :: string where "LANE_GRASS \<equiv> ''grass''"
abbreviation (input) LANE_ROAD :: string where "LANE_ROAD \<equiv> ''road''"
abbreviation (input) LANE_RIVER :: string where "LANE_RIVER \<equiv> ''river''"
abbreviation (input) AHEAD_ROWS :: int where "AHEAD_ROWS \<equiv> 28"
abbreviation (input) BEHIND_ROWS :: int where "BEHIND_ROWS \<equiv> 12"
abbreviation (input) PLAYER_HITBOX_INSET :: int where "PLAYER_HITBOX_INSET \<equiv> 10"

type_synonym colour = "int \<times> int \<times> int"

definition CAR_COLORS :: "colour list" where
  "CAR_COLORS = [(232, 80, 84), (82, 180, 255), (255, 170, 55), (170, 110, 255),
                 (90, 220, 140), (245, 245, 245)]"

definition LOG_COLORS :: "colour list" where
  "LOG_COLORS = [(128, 86, 50), (148, 98, 56), (170, 112, 62)]"

subsection \<open>Helpers\<close>

definition clamp :: "'a::linorder \<Rightarrow> 'a \<Rightarrow> 'a \<Rightarrow> 'a" where
  "clamp v lo hi = (if v < lo then lo else if v > hi then hi else v)"

definition py_int :: "real \<Rightarrow> int" where
  "py_int v = (if v < 0 then \<lceil>v\<rceil> else \<lfloor>v\<rfloor>)"

definition py_round :: "real \<Rightarrow> int" where
  "py_round v =
     (let f = \<lfloor>v\<rfloor>; d = v - of_int f
      in if d < 1 / 2 then f else if 1 / 2 < d then f + 1
         else if even f then f else f + 1)"

subsection \<open>Random generators\<close>

type_synonym rng = "(nat \<Rightarrow> nat) \<times> nat"

definition next_draw :: "rng \<Rightarrow> nat \<times> rng" where
  "next_draw g = (fst g (snd g), (fst g, snd g + 1))"

definition rng_random :: "rng \<Rightarrow> real \<times> rng" where
  "rng_random g =
     (case next_draw g of
        (k, g') \<Rightarrow> (real (k mod 9007199254740992) / 9007199254740992, g'))"

definition rng_randbelow :: "nat \<Rightarrow> rng \<Rightarrow> nat \<times> rng" where
  "rng_randbelow n g = (case next_draw g of (k, g') \<Rightarrow> (k mod n, g'))"

definition rng_uniform :: "real \<Rightarrow> real \<Rightarrow> rng \<Rightarrow> real \<times> rng" where
  "rng_uniform a b g = (case rng_random g of (u, g') \<Rightarrow> (a + (b - a) * u, g'))"

definition rng_choice :: "'a list \<Rightarrow> rng \<Rightarrow> 'a \<times> rng" where
  "rng_choice xs g = (case rng_randbelow (length xs) g of (i, g') \<Rightarrow> (xs ! i, g'))"

definition rng_randint :: "int \<Rightarrow> int \<Rightarrow> rng \<Rightarrow> int \<times> rng" where
  "rng_randint a b g =
     (case rng_randbelow (nat (b - a + 1)) g of (i, g') \<Rightarrow> (a + int i, g'))"

subsection \<open>pygame.Rect\<close>

record Rect =
  rx :: int
  ry :: int
  rw :: int
  rh :: int

definition mk_Rect :: "int \<Rightarrow> int \<Rightarrow> int \<Rightarrow> int \<Rightarrow> Rect" where
  "mk_Rect a b c d = \<lparr>rx = a, ry = b, rw = c, rh = d\<rparr>"

definition left :: "Rect \<Rightarrow> int" where "left r = rx r"
definition right :: "Rect \<Rightarrow> int" where "right r = rx r + rw r"
definition bottom :: "Rect \<Rightarrow> int" where "bottom r = ry r + rh r"
definition centerx :: "Rect \<Rightarrow> int" where "centerx r = rx r + rw r div 2"

definition inflate :: "Rect \<Rightarrow> int \<Rightarrow> int \<Rightarrow> Rect" where
  "inflate r dx dy = mk_Rect (rx r - dx div 2) (ry r - dy div 2) (rw r + dx) (rh r + dy)"

definition collidepoint :: "Rect \<Rightarrow> int \<times> int \<Rightarrow> bool" where
  "collidepoint r p =
     (rx r \<le> fst p \<and> fst p < rx r + rw r \<and> ry r \<le> snd p \<and> snd p < ry r + rh r)"

definition colliderect :: "Rect \<Rightarrow> Rect \<Rightarrow> bool" where
  "colliderect a b =
     (rx a < rx b + rw b \<and> rx b < rx a + rw a \<and> ry a < ry b + rh b \<and> ry b < ry a + rh a)"

subsection \<open>Obstacle\<close>

record Obstacle =
  rect :: Rect
  speed :: real
  color :: colour
  kind :: string

definition Obstacle_update :: "Obstacle \<Rightarrow> real \<Rightarrow> Obstacle" where
  "Obstacle_update ob dt =
     ob\<lparr>rect := (rect ob)\<lparr>rx := rx (rect ob) + py_int (Obstacle.speed ob * dt)\<rparr>\<rparr>"

subsection \<open>Lane\<close>

record Lane =
  lane_type :: string
  row :: int
  direction :: int
  speed :: real
  spawn_gap :: real
  last_spawn_t :: real
  objects :: "Obstacle list"
  decoration_seed :: int
  tree_positions :: "int list"

fun tree_loop :: "rng \<Rightarrow> int list \<Rightarrow> int list \<Rightarrow> int list" where
  "tree_loop g [] acc = acc"
| "tree_loop g (col # cols) acc =
     (case rng_random g of
        (u, g') \<Rightarrow> tree_loop g' cols (if u < 2 / 10 then acc @ [col] else acc))"

declare tree_loop.simps [simp del]

definition generate_tree_positions :: "(int \<Rightarrow> rng) \<Rightarrow> Lane \<Rightarrow> Lane" where
  "generate_tree_positions Random l =
     l\<lparr>tree_positions := tree_loop (Random (decoration_seed l + 1000)) [0..GRID_COLS - 1] []\<rparr>"

text \<open>The dataclass constructor with \<open>__post_init__\<close>; \<open>tree_positions\<close> is never passed
  by the callers, so it starts as the empty list.\<close>

definition Lane_new ::
  "(int \<Rightarrow> rng) \<Rightarrow> string \<Rightarrow> int \<Rightarrow> int \<Rightarrow> real \<Rightarrow> real \<Rightarrow> real \<Rightarrow> Obstacle list \<Rightarrow> int \<Rightarrow> Lane"
where
  "Lane_new Random t r d s gap lst objs seed =
     (let l = \<lparr>lane_type = t, row = r, direction = d, speed = s, spawn_gap = gap,
               last_spawn_t = lst, objects = objs, decoration_seed = seed,
               tree_positions = []\<rparr>
      in if lane_type l = LANE_GRASS then generate_tree_positions Random l else l)"

definition has_tree_at :: "Lane \<Rightarrow> int \<Rightarrow> bool" where
  "has_tree_at l col = (col \<in> set (tree_positions l))"

definition world_y :: "Lane \<Rightarrow> int" where
  "world_y l = - Lane.row l * TILE"

definition is_far_offscreen :: "Obstacle \<Rightarrow> bool" where
  "is_far_offscreen ob =
     (let margin = TILE * 4
      in if Obstacle.speed ob > 0 then left (rect ob) > WINDOW_W + margin
         else right (rect ob) < - margin)"

definition spawn_vehicle :: "Lane \<Rightarrow> real \<Rightarrow> real \<Rightarrow> rng \<Rightarrow> Lane \<times> rng" where
  "spawn_vehicle l dt t_total g =
     (let l1 = l\<lparr>last_spawn_t := last_spawn_t l - dt\<rparr>
      in if last_spawn_t l1 > 0 then (l1, g)
         else
           (case rng_uniform (22 / 10) (45 / 10) g of (gap, g1) \<Rightarrow>
            case rng_choice [12 / 10, 15 / 10, 18 / 10, 22 / 10] g1 of (car_len_tiles, g2) \<Rightarrow>
              let l2 = l1\<lparr>last_spawn_t := gap\<rparr>;
                  car_w = py_int (real_of_int TILE * car_len_tiles);
                  car_h = py_int (real_of_int TILE * (74 / 100));
                  y = world_y l2 + (TILE - car_h) div 2
              in case (if direction l2 > 0
                       then (case rng_randint 10 80 g2 of (k, g3) \<Rightarrow> (- car_w - k, g3))
                       else (case rng_randint 10 80 g2 of (k, g3) \<Rightarrow> (WINDOW_W + k, g3)))
                 of (x, g3) \<Rightarrow>
                 case rng_choice CAR_COLORS g3 of (c, g4) \<Rightarrow>
                   (l2\<lparr>objects := objects l2 @
                        [\<lparr>rect = mk_Rect x y car_w car_h,
                          speed = Lane.speed l2 * real_of_int (direction l2),
                          color = c, kind = ''car''\<rparr>]\<rparr>, g4)))"

definition spawn_log :: "Lane \<Rightarrow> real \<Rightarrow> real \<Rightarrow> rng \<Rightarrow> Lane \<times> rng" where
  "spawn_log l dt t_total g =
     (let l1 = l\<lparr>last_spawn_t := last_spawn_t l - dt\<rparr>
      in if last_spawn_t l1 > 0 then (l1, g)
         else
           (case rng_uniform 2 4 g of (gap, g1) \<Rightarrow>
            case rng_choice [16 / 10, 2, 24 / 10, 3] g1 of (log_len_tiles, g2) \<Rightarrow>
              let l2 = l1\<lparr>last_spawn_t := gap\<rparr>;
                  log_w = py_int (real_of_int TILE * log_len_tiles);
                  log_h = py_int (real_of_int TILE * (70 / 100));
                  y = world_y l2 + (TILE - log_h) div 2
              in case (if direction l2 > 0
                       then (case rng_randint 10 120 g2 of (k, g3) \<Rightarrow> (- log_w - k, g3))
                       else (case rng_randint 10 120 g2 of (k, g3) \<Rightarrow> (WINDOW_W + k, g3)))
                 of (x, g3) \<Rightarrow>
                 case rng_choice LOG_COLORS g3 of (c, g4) \<Rightarrow>
                   (l2\<lparr>objects := objects l2 @
                        [\<lparr>rect = mk_Rect x y log_w log_h,
                          speed = Lane.speed l2 * real_of_int (direction l2),
                          color = c, kind = ''log''\<rparr>]\<rparr>, g4)))"

definition Lane_update :: "Lane \<Rightarrow> real \<Rightarrow> real \<Rightarrow> rng \<Rightarrow> Lane \<times> rng" where
  "Lane_update l dt t_total g =
     (let l1 = l\<lparr>objects := map (\<lambda>ob. Obstacle_update ob dt) (objects l)\<rparr>;
          l2 = (if lane_type l1 = LANE_ROAD \<or> lane_type l1 = LANE_RIVER
                then l1\<lparr>objects := filter (\<lambda>ob. \<not> is_far_offscreen ob) (objects l1)\<rparr>
                else l1)
      in if lane_type l2 = LANE_ROAD then spawn_vehicle l2 dt t_total g
         else if lane_type l2 = LANE_RIVER then spawn_log l2 dt t_total g
         else (l2, g))"

subsection \<open>Player\<close>

record Player =
  x :: real
  row :: int
  alive :: bool
  score_best :: int
  score :: int
  last_hop_ms :: int
  riding_dx :: real
  hop_progress :: real
  hop_animating :: bool

definition tile_rect_world :: "Player \<Rightarrow> Rect" where
  "tile_rect_world p = mk_Rect (py_int (x p)) (- Player.row p * TILE) TILE TILE"

definition rect_world :: "Player \<Rightarrow> Rect" where
  "rect_world p =
     (let base = tile_rect_world p; inset = 8
      in mk_Rect (rx base + inset) (ry base + inset) (rw base - inset * 2) (rh base - inset * 2))"

definition hitbox_world :: "Player \<Rightarrow> Rect" where
  "hitbox_world p =
     (let r = rect_world p
      in mk_Rect (rx r + PLAYER_HITBOX_INSET) (ry r + PLAYER_HITBOX_INSET)
           (rw r - PLAYER_HITBOX_INSET * 2) (rh r - PLAYER_HITBOX_INSET * 2))"

definition can_hop :: "int \<Rightarrow> Player \<Rightarrow> bool" where
  "can_hop now p = (now - last_hop_ms p \<ge> HOP_COOLDOWN_MS)"

definition grid_col :: "Player \<Rightarrow> int" where
  "grid_col p = py_round (x p / real_of_int TILE)"

definition Player_hop :: "int \<Rightarrow> Player \<Rightarrow> int \<Rightarrow> int \<Rightarrow> Player" where
  "Player_hop now p dc dr =
     (if \<not> alive p \<or> \<not> can_hop now p then p
      else
        let p1 = p\<lparr>last_hop_ms := now, hop_animating := True, hop_progress := 0\<rparr>;
            col = grid_col p1;
            col' = clamp (col + dc) 0 (GRID_COLS - 1)
        in p1\<lparr>x := real_of_int (col' * TILE), row := max 0 (Player.row p1 + dr)\<rparr>)"

definition Player_update :: "Player \<Rightarrow> real \<Rightarrow> Player" where
  "Player_update p dt =
     (if \<not> alive p then p
      else
        let p1 = (if hop_animating p
                  then (let q = p\<lparr>hop_progress := hop_progress p + dt * 8\<rparr>
                        in if hop_progress q \<ge> 1
                           then q\<lparr>hop_progress := 1, hop_animating := False\<rparr> else q)
                  else p);
            p2 = (if \<bar>riding_dx p1\<bar> \<ge> 1 / 1000
                  then p1\<lparr>x := x p1 + riding_dx p1 * dt\<rparr> else p1);
            r = rect_world p2
        in if right r < 0 \<or> left r > WINDOW_W then p2\<lparr>alive := False\<rparr> else p2)"

subsection \<open>World\<close>

record World =
  lanes :: "int \<Rightarrow> Lane option"
  rng :: rng
  max_generated_row :: int

definition World_init :: "(int \<Rightarrow> rng) \<Rightarrow> World" where
  "World_init Random = \<lparr>lanes = Map.empty, rng = Random 1337, max_generated_row = - 1\<rparr>"

definition is_hazard :: "Lane option \<Rightarrow> bool" where
  "is_hazard l =
     (case l of None \<Rightarrow> False
      | Some la \<Rightarrow> lane_type la = LANE_ROAD \<or> lane_type la = LANE_RIVER)"

definition choose_lane_type :: "World \<Rightarrow> int \<Rightarrow> string \<times> World" where
  "choose_lane_type w r =
     (if r < 10
      then (case rng_random (rng w) of
              (u, g') \<Rightarrow> (if u < 75 / 100 then LANE_GRASS else LANE_ROAD, w\<lparr>rng := g'\<rparr>))
      else
        let prev1 = lanes w (r - 1);
            prev2 = lanes w (r - 2);
            c1 = (if is_hazard prev1 then (0::nat) + 1 else 0);
            consecutive_hazard = (if is_hazard prev2 \<and> is_hazard prev1 then c1 + 1 else c1)
        in if consecutive_hazard \<ge> 2 then (LANE_GRASS, w)
           else (case rng_random (rng w) of
                   (roll, g') \<Rightarrow>
                     (if roll < 40 / 100 then LANE_GRASS
                      else if roll < 72 / 100 then LANE_ROAD
                      else LANE_RIVER, w\<lparr>rng := g'\<rparr>)))"

definition ensure_lane :: "(int \<Rightarrow> rng) \<Rightarrow> World \<Rightarrow> int \<Rightarrow> string option \<Rightarrow> World" where
  "ensure_lane Random w r force_type =
     (if lanes w r \<noteq> None then w
      else
        case (case force_type of Some t \<Rightarrow> (t, w) | None \<Rightarrow> choose_lane_type w r) of
          (lt, w1) \<Rightarrow>
        case rng_choice [- 1, 1] (rng w1) of (dir, g1) \<Rightarrow>
        case rng_randint 0 999999 g1 of (seed, g2) \<Rightarrow>
          if lt = LANE_GRASS
          then w1\<lparr>rng := g2,
                  lanes := (lanes w1)(r \<mapsto> Lane_new Random LANE_GRASS r dir 0 999 999 [] seed)\<rparr>
          else if lt = LANE_ROAD
          then (case rng_uniform 140 260 g2 of (sp, g3) \<Rightarrow>
                case rng_uniform (22 / 10) (45 / 10) g3 of (gap, g4) \<Rightarrow>
                case rng_uniform 0 (15 / 10) g4 of (lst, g5) \<Rightarrow>
                  w1\<lparr>rng := g5,
                      lanes := (lanes w1)(r \<mapsto> Lane_new Random LANE_ROAD r dir sp gap lst [] seed)\<rparr>)
          else (case rng_uniform 90 180 g2 of (sp, g3) \<Rightarrow>
                case rng_uniform 2 4 g3 of (gap, g4) \<Rightarrow>
                case rng_uniform 0 (15 / 10) g4 of (lst, g5) \<Rightarrow>
                  w1\<lparr>rng := g5,
                      lanes := (lanes w1)(r \<mapsto> Lane_new Random LANE_RIVER r dir sp gap lst [] seed)\<rparr>))"

fun reset_loop :: "(int \<Rightarrow> rng) \<Rightarrow> World \<Rightarrow> int list \<Rightarrow> World" where
  "reset_loop Random w [] = w"
| "reset_loop Random w (r # rs) =
     reset_loop Random (ensure_lane Random w r (Some LANE_GRASS)) rs"

definition World_reset :: "(int \<Rightarrow> rng) \<Rightarrow> World \<Rightarrow> rng \<Rightarrow> World \<times> rng" where
  "World_reset Random w g =
     (case rng_randint 0 10000000 g of
        (seed, g') \<Rightarrow>
          (reset_loop Random
             (w\<lparr>lanes := Map.empty, rng := Random seed, max_generated_row := - 1\<rparr>) [0..7],
           g'))"

text \<open>\<open>lane_at\<close> reads \<open>self.lanes[row]\<close> right after \<open>_ensure_lane(row)\<close>; the key is
  present then (lemma \<open>ensure_lane_present\<close> below), so the lookup cannot raise.\<close>

definition lane_at :: "(int \<Rightarrow> rng) \<Rightarrow> World \<Rightarrow> int \<Rightarrow> Lane \<times> World" where
  "lane_at Random w r = (let w' = ensure_lane Random w r None in (the (lanes w' r), w'))"

fun generate_loop :: "(int \<Rightarrow> rng) \<Rightarrow> World \<Rightarrow> int list \<Rightarrow> World" where
  "generate_loop Random w [] = w"
| "generate_loop Random w (r # rs) =
     generate_loop Random
       (let w' = ensure_lane Random w r None
        in w'\<lparr>max_generated_row := max (max_generated_row w') r\<rparr>) rs"

definition generate_around :: "(int \<Rightarrow> rng) \<Rightarrow> World \<Rightarrow> int \<Rightarrow> World" where
  "generate_around Random w player_row =
     (let target_max = player_row + AHEAD_ROWS;
          w1 = generate_loop Random w [max_generated_row w + 1..target_max];
          min_keep = max 0 (player_row - (BEHIND_ROWS + 8))
      in w1\<lparr>lanes := (\<lambda>r. if r < min_keep then None else lanes w1 r)\<rparr>)"

fun update_loop :: "World \<Rightarrow> real \<Rightarrow> real \<Rightarrow> rng \<Rightarrow> int list \<Rightarrow> World \<times> rng" where
  "update_loop w dt t_total g [] = (w, g)"
| "update_loop w dt t_total g (r # rs) =
     (if r < 0 then update_loop w dt t_total g rs
      else case lanes w r of
             None \<Rightarrow> update_loop w dt t_total g rs
           | Some lane \<Rightarrow>
               (case Lane_update lane dt t_total g of
                  (lane', g') \<Rightarrow>
                    update_loop (w\<lparr>lanes := (lanes w)(r \<mapsto> lane')\<rparr>) dt t_total g' rs))"

definition World_update ::
  "(int \<Rightarrow> rng) \<Rightarrow> World \<Rightarrow> real \<Rightarrow> real \<Rightarrow> int \<Rightarrow> rng \<Rightarrow> World \<times> rng" where
  "World_update Random w dt t_total player_row g =
     update_loop (generate_around Random w player_row) dt t_total g
       [player_row - BEHIND_ROWS..player_row + AHEAD_ROWS]"

subsection \<open>Game\<close>

record Game =
  world :: World
  player :: Player
  camera_y :: int
  t_total :: real
  game_over :: bool
  random :: rng

definition Game_reset :: "(int \<Rightarrow> rng) \<Rightarrow> Game \<Rightarrow> Game" where
  "Game_reset Random g =
     (case World_reset Random (world g) (random g) of
        (w, rnd) \<Rightarrow>
          let p = (player g)\<lparr>x := real_of_int ((GRID_COLS div 2) * TILE), row := 2,
                    alive := True, score := 0, riding_dx := 0, hop_progress := 0,
                    hop_animating := False\<rparr>
          in g\<lparr>world := w, random := rnd, player := p,
               camera_y := (- Player.row p * TILE) - WINDOW_H + 10 * TILE,
               t_total := 0, game_over := False\<rparr>)"

text \<open>\<open>Game.__init__\<close>: the field assignments, then \<open>self.reset()\<close>.\<close>

definition Game_fields :: "(int \<Rightarrow> rng) \<Rightarrow> rng \<Rightarrow> Game" where
  "Game_fields Random rnd =
     \<lparr>world = World_init Random,
      player = \<lparr>x = real_of_int ((GRID_COLS div 2) * TILE), row = 2, alive = True,
                score_best = 0, score = 0, last_hop_ms = 0, riding_dx = 0,
                hop_progress = 0, hop_animating = False\<rparr>,
      camera_y = 0, t_total = 0, game_over = False, random = rnd\<rparr>"

definition Game_init :: "(int \<Rightarrow> rng) \<Rightarrow> rng \<Rightarrow> Game" where
  "Game_init Random rnd = Game_reset Random (Game_fields Random rnd)"

definition can_move_to :: "(int \<Rightarrow> rng) \<Rightarrow> Game \<Rightarrow> int \<Rightarrow> int \<Rightarrow> bool \<times> Game" where
  "can_move_to Random g dc dr =
     (let current_col = grid_col (player g);
          target_col = clamp (current_col + dc) 0 (GRID_COLS - 1);
          target_row = max 0 (Player.row (player g) + dr)
      in case lane_at Random (world g) target_row of
           (target_lane, w) \<Rightarrow>
             (\<not> (lane_type target_lane = LANE_GRASS \<and> has_tree_at target_lane target_col),
              g\<lparr>world := w\<rparr>))"

datatype key = K_UP | K_DOWN | K_LEFT | K_RIGHT | K_r | K_ESCAPE | K_OTHER

datatype event = QUIT | KEYDOWN key | OTHER_EVENT

definition try_hop :: "(int \<Rightarrow> rng) \<Rightarrow> int \<Rightarrow> Game \<Rightarrow> int \<Rightarrow> int \<Rightarrow> Game" where
  "try_hop Random now g dc dr =
     (case can_move_to Random g dc dr of
        (ok, g1) \<Rightarrow> if ok then g1\<lparr>player := Player_hop now (player g1) dc dr\<rparr> else g1)"

text \<open>One iteration of the loop in \<open>_handle_events\<close>; \<open>None\<close> is \<open>sys.exit(0)\<close>.\<close>

definition handle_event :: "(int \<Rightarrow> rng) \<Rightarrow> Game \<Rightarrow> event \<times> int \<Rightarrow> Game option" where
  "handle_event Random g en =
     (case fst en of
        QUIT \<Rightarrow> None
      | OTHER_EVENT \<Rightarrow> Some g
      | KEYDOWN k \<Rightarrow>
          if k = K_ESCAPE then None
          else
            let g1 = (if k = K_r then Game_reset Random g else g)
            in if \<not> alive (player g1) then Some g1
               else if k = K_UP then Some (try_hop Random (snd en) g1 0 1)
               else if k = K_DOWN then Some (try_hop Random (snd en) g1 0 (- 1))
               else if k = K_LEFT then Some (try_hop Random (snd en) g1 (- 1) 0)
               else if k = K_RIGHT then Some (try_hop Random (snd en) g1 1 0)
               else Some g1)"

fun handle_events :: "(int \<Rightarrow> rng) \<Rightarrow> Game \<Rightarrow> (event \<times> int) list \<Rightarrow> Game option" where
  "handle_events Random g [] = Some g"
| "handle_events Random g (en # ens) =
     (case handle_event Random g en of
        None \<Rightarrow> None
      | Some g' \<Rightarrow> handle_events Random g' ens)"

definition player_hit_car :: "Player \<Rightarrow> Lane \<Rightarrow> bool" where
  "player_hit_car p lane =
     (let hb = hitbox_world p
      in list_ex (\<lambda>ob. kind ob = ''car'' \<and> colliderect hb (inflate (rect ob) (- 6) (- 8)))
           (objects lane))"

definition support_point :: "Player \<Rightarrow> int \<times> int" where
  "support_point p = (let pr = rect_world p in (centerx pr, bottom pr - 4))"

definition player_on_log :: "Player \<Rightarrow> Lane \<Rightarrow> Obstacle option" where
  "player_on_log p lane =
     find (\<lambda>ob. kind ob = ''log'' \<and> collidepoint (inflate (rect ob) 10 8) (support_point p))
       (objects lane)"

definition Game_update :: "(int \<Rightarrow> rng) \<Rightarrow> Game \<Rightarrow> real \<Rightarrow> Game" where
  "Game_update Random g dt =
     (if \<not> alive (player g) then g\<lparr>game_over := True\<rparr>
      else
        case World_update Random (world g) dt (t_total g) (Player.row (player g)) (random g) of
          (w1, rnd) \<Rightarrow>
        let p1 = (player g)\<lparr>riding_dx := 0\<rparr>;
            p2 = p1\<lparr>score := max (score p1) (Player.row p1 - 2)\<rparr>;
            p3 = p2\<lparr>score_best := max (score_best p2) (score p2)\<rparr>
        in case lane_at Random w1 (Player.row p3) of
             (lane, w2) \<Rightarrow>
        let p4 = (if lane_type lane = LANE_RIVER
                  then (case player_on_log p3 lane of
                          None \<Rightarrow> p3\<lparr>alive := False\<rparr>
                        | Some on_log \<Rightarrow> p3\<lparr>riding_dx := Obstacle.speed on_log\<rparr>)
                  else p3);
            p5 = (if lane_type lane = LANE_ROAD \<and> player_hit_car p4 lane
                  then p4\<lparr>alive := False\<rparr> else p4);
            p6 = Player_update p5 dt
        in case (if alive p6
                 then (case lane_at Random w2 (Player.row p6) of
                         (lane2, w3) \<Rightarrow>
                           (if lane_type lane2 = LANE_ROAD \<and> player_hit_car p6 lane2
                            then p6\<lparr>alive := False\<rparr> else p6, w3))
                 else (p6, w2)) of
             (p7, w3) \<Rightarrow>
        let desired_camera = (- Player.row p7 * TILE) - WINDOW_H + 10 * TILE
        in g\<lparr>world := w3, player := p7, random := rnd,
             camera_y := camera_y g
               + py_int (real_of_int (desired_camera - camera_y g) * clamp (dt * 6) 0 1)\<rparr>)"

text \<open>One iteration of \<open>Game.run\<close> (without drawing): the frame time and the events
  pending in that frame, each with the clock reading at which it is handled.\<close>

definition run_frame :: "(int \<Rightarrow> rng) \<Rightarrow> Game \<Rightarrow> real \<times> (event \<times> int) list \<Rightarrow> Game option" where
  "run_frame Random g fr =
     (case handle_events Random (g\<lparr>t_total := t_total g + fst fr\<rparr>) (snd fr) of
        None \<Rightarrow> None
      | Some g' \<Rightarrow> Some (Game_update Random g' (fst fr)))"

fun run :: "(int \<Rightarrow> rng) \<Rightarrow> Game \<Rightarrow> (real \<times> (event \<times> int) list) list \<Rightarrow> Game option" where
  "run Random g [] = Some g"
| "run Random g (fr # frs) =
     (case run_frame Random g fr of
        None \<Rightarrow> None
      | Some g' \<Rightarrow> run Random g' frs)"

section \<open>Predicates used to state the properties\<close>

text \<open>Well-formedness of a lane as \<open>_ensure_lane\<close> creates it and \<open>Lane.update\<close> keeps it:
  the direction is a unit, the speed lies in the range of the lane's kind, every obstacle
  carries the lane's velocity, and the trees of a grass lane are the ones drawn from the
  generator seeded with \<open>decoration_seed + 1000\<close>.\<close>

definition lane_ok :: "(int \<Rightarrow> rng) \<Rightarrow> Lane \<Rightarrow> bool" where
  "lane_ok Random l =
     ((direction l = - 1 \<or> direction l = 1)
      \<and> (lane_type l = LANE_GRASS \<or> lane_type l = LANE_ROAD \<or> lane_type l = LANE_RIVER)
      \<and> (lane_type l = LANE_RIVER \<longrightarrow> 90 \<le> Lane.speed l \<and> Lane.speed l < 180)
      \<and> (lane_type l = LANE_ROAD \<longrightarrow> 140 \<le> Lane.speed l \<and> Lane.speed l < 260)
      \<and> list_all (\<lambda>ob. Obstacle.speed ob = Lane.speed l * real_of_int (direction l)) (objects l)
      \<and> tree_positions l =
          (if lane_type l = LANE_GRASS
           then tree_loop (Random (decoration_seed l + 1000)) [0..GRID_COLS - 1] [] else []))"

definition world_ok :: "(int \<Rightarrow> rng) \<Rightarrow> World \<Rightarrow> bool" where
  "world_ok Random w = (\<forall>r l. lanes w r = Some l \<longrightarrow> lane_ok Random l \<and> Lane.row l = r)"

text \<open>The part of a lane that generation fixes: type, row, direction, speed, decoration
  seed and blocked columns.\<close>

definition static :: "Lane \<Rightarrow> string \<times> int \<times> int \<times> real \<times> int \<times> int list" where
  "static l =
     (lane_type l, Lane.row l, direction l, Lane.speed l, decoration_seed l, tree_positions l)"

text \<open>Two worlds agree on everything generation reads and writes.\<close>

definition same_generation :: "World \<Rightarrow> World \<Rightarrow> bool" where
  "same_generation w1 w2 =
     (rng w1 = rng w2 \<and> max_generated_row w1 = max_generated_row w2
      \<and> (\<forall>r. map_option static (lanes w1 r) = map_option static (lanes w2 r)))"

text \<open>A sequence of \<open>World.update(dt, t_total, player_row)\<close> calls.\<close>

fun World_run ::
  "(int \<Rightarrow> rng) \<Rightarrow> World \<times> rng \<Rightarrow> (real \<times> real \<times> int) list \<Rightarrow> World \<times> rng" where
  "World_run Random wg [] = wg"
| "World_run Random wg (s # ss) =
     World_run Random
       (World_update Random (fst wg) (fst s) (fst (snd s)) (snd (snd s)) (snd wg)) ss"

definition no_gap :: "World \<Rightarrow> int \<Rightarrow> bool" where
  "no_gap w k = (\<forall>r. k \<le> r \<and> r \<le> max_generated_row w \<longrightarrow> lanes w r \<noteq> None)"

text \<open>The horizontal range within which \<open>Player.update\<close> leaves the player alive.\<close>

definition in_bounds :: "Player \<Rightarrow> bool" where
  "in_bounds p = (alive p \<longrightarrow> - 41 < x p \<and> x p < 713)"

text \<open>A tick in which the player is carried: alive, on a river lane (as it stands after
  the world update of the tick) and supported by a log; \<open>in_range\<close> is the playable column
  range; \<open>no_ride\<close> says that no tick of a sequence of frames is a riding tick.\<close>

definition rides :: "(int \<Rightarrow> rng) \<Rightarrow> Game \<Rightarrow> real \<Rightarrow> bool" where
  "rides Random g dt =
     (alive (player g)
      \<and> (let lane = fst (lane_at Random
                         (fst (World_update Random (world g) dt (t_total g)
                                 (Player.row (player g)) (random g)))
                         (Player.row (player g)))
         in lane_type lane = LANE_RIVER \<and> player_on_log (player g) lane \<noteq> None))"

definition in_range :: "Player \<Rightarrow> bool" where
  "in_range p = (0 \<le> x p \<and> x p \<le> real_of_int ((GRID_COLS - 1) * TILE))"

fun no_ride :: "(int \<Rightarrow> rng) \<Rightarrow> Game \<Rightarrow> (real \<times> (event \<times> int) list) list \<Rightarrow> bool" where
  "no_ride Random g [] = True"
| "no_ride Random g (fr # frs) =
     (case handle_events Random (g\<lparr>t_total := t_total g + fst fr\<rparr>) (snd fr) of
        None \<Rightarrow> True
      | Some g1 \<Rightarrow> \<not> rides Random g1 (fst fr) \<and> no_ride Random (Game_update Random g1 (fst fr)) frs)"

section \<open>Concrete generators and states used in the examples\<close>

text \<open>\<open>Random0\<close> draws \<open>0.5\<close> every time (no trees, since \<open>0.5 \<ge> 0.2\<close>; a road for every
  row from 10 on that is not forced to grass); \<open>Random1\<close> draws \<open>0\<close> every time (a tree in
  every column of a grass lane).\<close>

definition Random0 :: "int \<Rightarrow> rng" where
  "Random0 seed = (\<lambda>i. 4503599627370496, 0)"

definition Random1 :: "int \<Rightarrow> rng" where
  "Random1 seed = (\<lambda>i. 0, 0)"

definition rnd0 :: rng where
  "rnd0 = (\<lambda>i. 0, 0)"

definition rnd1 :: rng where
  "rnd1 = (\<lambda>i. if i = 0 then 10000001 else 7, 0)"

definition dead_game :: Game where
  "dead_game = (Game_fields Random0 rnd0)\<lparr>player := (player (Game_fields Random0 rnd0))\<lparr>alive := False\<rparr>\<rparr>"

definition row0_game :: Game where
  "row0_game =
     (Game_fields Random0 rnd0)\<lparr>player := (player (Game_fields Random0 rnd0))\<lparr>x := 340, row := 0\<rparr>\<rparr>"

text \<open>A player standing in column 14 of river row 12 on a log that moves right at
  150 px/s.\<close>

definition river_log :: Obstacle where
  "river_log =
     \<lparr>rect = mk_Rect 600 (- 569) 144 33, speed = 150, color = (128, 86, 50), kind = ''log''\<rparr>"

definition river_lane :: Lane where
  "river_lane =
     \<lparr>lane_type = LANE_RIVER, row = 12, direction = 1, speed = 150, spawn_gap = 3,
      last_spawn_t = 2, objects = [river_log], decoration_seed = 0, tree_positions = []\<rparr>"

definition river_game :: Game where
  "river_game =
     \<lparr>world = \<lparr>lanes = [12 \<mapsto> river_lane], rng = Random0 0, max_generated_row = 40\<rparr>,
      player = \<lparr>x = 672, row = 12, alive = True, score_best = 10, score = 10, last_hop_ms = 0,
                riding_dx = 0, hop_progress = 0, hop_animating = False\<rparr>,
      camera_y = - 1056, t_total = 5, game_over = False, random = rnd0\<rparr>"

text \<open>Rows 14, 13 and 12 requested in this order from a fresh world.\<close>

definition streak_world :: World where
  "streak_world =
     snd (lane_at Random0 (snd (lane_at Random0 (snd (lane_at Random0 (World_init Random0) 14)) 13)) 12)"

text \<open>A player standing on grass row 12.\<close>

definition grass_lane :: Lane where
  "grass_lane =
     \<lparr>lane_type = LANE_GRASS, row = 12, direction = 1, speed = 0, spawn_gap = 999,
      last_spawn_t = 999, objects = [], decoration_seed = 0, tree_positions = []\<rparr>"

definition grass_game :: Game where
  "grass_game =
     \<lparr>world = \<lparr>lanes = [12 \<mapsto> grass_lane], rng = Random0 0, max_generated_row = 40\<rparr>,
      player = \<lparr>x = 336, row = 12, alive = True, score_best = 10, score = 10, last_hop_ms = 0,
                riding_dx = 0, hop_progress = 0, hop_animating = False\<rparr>,
      camera_y = - 1056, t_total = 5, game_over = False, random = rnd0\<rparr>"

text \<open>A player who has walked back to row 1, the lowest row that was kept; row 0 has
  been discarded.  The last hop was at 1000 ms.\<close>

definition far_lane :: Lane where
  "far_lane =
     \<lparr>lane_type = LANE_GRASS, row = 1, direction = - 1, speed = 0, spawn_gap = 999,
      last_spawn_t = 999, objects = [], decoration_seed = 0, tree_positions = []\<rparr>"

definition pruned_game :: Game where
  "pruned_game =
     \<lparr>world = \<lparr>lanes = [1 \<mapsto> far_lane], rng = Random0 0, max_generated_row = 49\<rparr>,
      player = \<lparr>x = 336, row = 1, alive = True, score_best = 19, score = 19,
                last_hop_ms = 1000, riding_dx = 0, hop_progress = 1, hop_animating = False\<rparr>,
      camera_y = - 528, t_total = 9, game_over = False, random = rnd0\<rparr>"

section \<open>Properties\<close>

subsection \<open>Evaluation and basic facts\<close>

lemmas eval_defs = Game_fields_def World_init_def can_move_to_def lane_at_def ensure_lane_def
  choose_lane_type_def rng_random_def rng_randint_def rng_randbelow_def rng_choice_def
  rng_uniform_def next_draw_def Lane_new_def generate_tree_positions_def has_tree_at_def
  grid_col_def py_round_def clamp_def can_hop_def upto_rec1 tree_loop.simps

lemma py_round_grid: "py_round (real_of_int (c * TILE) / real_of_int TILE) = c"
  by (simp add: py_round_def)

lemma Game_update_dead: "\<not> alive (player g) \<Longrightarrow> Game_update Random g dt = g\<lparr>game_over := True\<rparr>"
  by (simp add: Game_update_def)

lemma Game_reset_player:
  "player (Game_reset Random g) = (player g)\<lparr>x := 336, row := 2, alive := True, score := 0,
      riding_dx := 0, hop_progress := 0, hop_animating := False\<rparr>"
  by (simp add: Game_reset_def split_beta Let_def)


lemma Game_reset_alive: "alive (player (Game_reset Random g))"
  by (simp add: Game_reset_player)

lemma Game_init_player:
  "player (Game_init Random rnd) = \<lparr>x = 336, row = 2, alive = True, score_best = 0, score = 0,
      last_hop_ms = 0, riding_dx = 0, hop_progress = 0, hop_animating = False\<rparr>"
  by (simp add: Game_init_def Game_reset_player Game_fields_def)


subsection \<open>Random generators\<close>

lemma rng_random_range: "0 \<le> fst (rng_random g) \<and> fst (rng_random g) < 1"
  by (simp add: rng_random_def split_beta)

lemma rng_uniform_range:
  assumes "a < b"
  shows "a \<le> fst (rng_uniform a b g) \<and> fst (rng_uniform a b g) < b"
proof -
  let ?u = "fst (rng_random g)"
  have u: "0 \<le> ?u" "?u < 1" using rng_random_range[of g] by auto
  have eq: "fst (rng_uniform a b g) = a + (b - a) * ?u"
    by (simp add: rng_uniform_def split_beta)
  from u assms have "0 \<le> (b - a) * ?u" by simp
  moreover from u assms have "(b - a) * ?u < (b - a) * 1"
    by (intro mult_strict_left_mono) auto
  ultimately show ?thesis unfolding eq by simp
qed

lemma rng_choice_mem: "xs \<noteq> [] \<Longrightarrow> fst (rng_choice xs g) \<in> set xs"
  by (simp add: rng_choice_def rng_randbelow_def next_draw_def)

lemma rng_choice_dir:
  "fst (rng_choice [- 1, 1 :: int] g) = - 1 \<or> fst (rng_choice [- 1, 1 :: int] g) = 1"
  using rng_choice_mem[of "[- 1, 1 :: int]" g] by auto


lemma tree_loop_no_trees:
  "(\<And>i. 2 / 10 \<le> real (fst g i mod 9007199254740992) / 9007199254740992)
   \<Longrightarrow> tree_loop g cols acc = acc"
proof (induction cols arbitrary: g acc)
  case Nil
  then show ?case by (simp add: tree_loop.simps)
next
  case (Cons col cols)
  have "\<not> real (fst g (snd g) mod 9007199254740992) / 9007199254740992 < 2 / 10"
    using Cons.prems[of "snd g"] by simp
  moreover have "tree_loop (fst g, snd g + 1) cols acc = acc"
    by (rule Cons.IH) (use Cons.prems in simp)
  ultimately show ?case
    by (simp add: tree_loop.simps rng_random_def next_draw_def)
qed

lemma tree_loop_Random0: "tree_loop (Random0 s) [0..14] [] = []"
  by (rule tree_loop_no_trees) (simp add: Random0_def)

subsection \<open>Lane generation\<close>

lemma choose_lane_type_fst:
  "fst (choose_lane_type w r) = LANE_GRASS \<or> fst (choose_lane_type w r) = LANE_ROAD
   \<or> fst (choose_lane_type w r) = LANE_RIVER"
  by (simp add: choose_lane_type_def split_beta Let_def)

lemma choose_lane_type_snd:
  "lanes (snd (choose_lane_type w r)) = lanes w
   \<and> max_generated_row (snd (choose_lane_type w r)) = max_generated_row w"
  by (simp add: choose_lane_type_def split_beta Let_def)

lemma choose_lane_type_forced:
  "10 \<le> r \<Longrightarrow> is_hazard (lanes w (r - 1)) \<Longrightarrow> is_hazard (lanes w (r - 2))
   \<Longrightarrow> fst (choose_lane_type w r) = LANE_GRASS"
  by (simp add: choose_lane_type_def)

lemma Lane_new_fields:
  "lane_type (Lane_new Random t r d s gap lst objs seed) = t
   \<and> Lane.row (Lane_new Random t r d s gap lst objs seed) = r
   \<and> direction (Lane_new Random t r d s gap lst objs seed) = d
   \<and> Lane.speed (Lane_new Random t r d s gap lst objs seed) = s
   \<and> objects (Lane_new Random t r d s gap lst objs seed) = objs
   \<and> decoration_seed (Lane_new Random t r d s gap lst objs seed) = seed
   \<and> tree_positions (Lane_new Random t r d s gap lst objs seed) =
       (if t = LANE_GRASS then tree_loop (Random (seed + 1000)) [0..GRID_COLS - 1] [] else [])"
  by (simp add: Lane_new_def generate_tree_positions_def Let_def)

lemma Lane_new_ok:
  assumes "d = - 1 \<or> d = 1"
    and "t = LANE_GRASS \<or> t = LANE_ROAD \<or> t = LANE_RIVER"
    and "t = LANE_RIVER \<longrightarrow> 90 \<le> s \<and> s < 180"
    and "t = LANE_ROAD \<longrightarrow> 140 \<le> s \<and> s < 260"
  shows "lane_ok Random (Lane_new Random t r d s gap lst [] seed)"
  using assms by (auto simp add: lane_ok_def Lane_new_fields)


text \<open>After \<open>_ensure_lane(row)\<close> the row is present, so \<open>lane_at\<close> cannot raise
  \<open>KeyError\<close>.\<close>

lemma ensure_lane_present: "lanes (ensure_lane Random w r ft) r \<noteq> None"
  by (simp add: ensure_lane_def split_beta)

lemma ensure_lane_noop: "lanes w r \<noteq> None \<Longrightarrow> ensure_lane Random w r ft = w"
  by (simp add: ensure_lane_def)

lemma ensure_lane_other: "r' \<noteq> r \<Longrightarrow> lanes (ensure_lane Random w r ft) r' = lanes w r'"
  by (simp add: ensure_lane_def split_beta choose_lane_type_snd split: option.splits)

lemma ensure_lane_max: "max_generated_row (ensure_lane Random w r ft) = max_generated_row w"
  by (simp add: ensure_lane_def split_beta choose_lane_type_snd split: option.splits)

lemma lane_at_present: "lanes w r = Some l \<Longrightarrow> lane_at Random w r = (l, w)"
  by (simp add: lane_at_def ensure_lane_noop)

lemma ensure_lane_new:
  assumes "lanes w r = None" "ft = None \<or> ft = Some LANE_GRASS"
  shows "\<exists>l. lanes (ensure_lane Random w r ft) r = Some l \<and> lane_ok Random l \<and> Lane.row l = r
           \<and> objects l = []
           \<and> lane_type l = (case ft of None \<Rightarrow> fst (choose_lane_type w r) | Some t \<Rightarrow> t)"
proof -
  define lt where "lt = (case ft of None \<Rightarrow> fst (choose_lane_type w r) | Some t \<Rightarrow> t)"
  define w1 where "w1 = (case ft of None \<Rightarrow> snd (choose_lane_type w r) | Some t \<Rightarrow> w)"
  define d where "d = fst (rng_choice [- 1, 1 :: int] (rng w1))"
  define g1 where "g1 = snd (rng_choice [- 1, 1 :: int] (rng w1))"
  define seed where "seed = fst (rng_randint 0 999999 g1)"
  define g2 where "g2 = snd (rng_randint 0 999999 g1)"
  have c: "(case ft of Some t \<Rightarrow> (t, w) | None \<Rightarrow> choose_lane_type w r) = (lt, w1)"
    by (simp add: lt_def w1_def split: option.splits)
  have lt: "lt = LANE_GRASS \<or> lt = LANE_ROAD \<or> lt = LANE_RIVER"
    using assms(2) choose_lane_type_fst[of w r] by (auto simp: lt_def)
  have d: "d = - 1 \<or> d = 1" unfolding d_def by (rule rng_choice_dir)
  have "\<exists>s gap lst. (lt = LANE_RIVER \<longrightarrow> 90 \<le> s \<and> s < 180) \<and> (lt = LANE_ROAD \<longrightarrow> 140 \<le> s \<and> s < 260)
      \<and> lanes (ensure_lane Random w r ft) r = Some (Lane_new Random lt r d s gap lst [] seed)"
  proof -
    consider "lt = LANE_GRASS" | "lt = LANE_ROAD" | "lt = LANE_RIVER" using lt by blast
    then show ?thesis
    proof cases
      case 1
      have "lanes (ensure_lane Random w r ft) r = Some (Lane_new Random lt r d 0 999 999 [] seed)"
        using assms(1) 1 by (simp add: ensure_lane_def c split_beta d_def g1_def seed_def)
      with 1 show ?thesis by auto
    next
      case 2
      define s where "s = fst (rng_uniform 140 260 g2)"
      define g3 where "g3 = snd (rng_uniform 140 260 g2)"
      define gap where "gap = fst (rng_uniform (22 / 10) (45 / 10) g3)"
      define g4 where "g4 = snd (rng_uniform (22 / 10) (45 / 10) g3)"
      define lst where "lst = fst (rng_uniform 0 (15 / 10) g4)"
      have "lanes (ensure_lane Random w r ft) r = Some (Lane_new Random lt r d s gap lst [] seed)"
        using assms(1) 2
        by (simp add: ensure_lane_def c split_beta d_def g1_def seed_def g2_def s_def g3_def
            gap_def g4_def lst_def)
      moreover have "140 \<le> s \<and> s < 260" unfolding s_def by (rule rng_uniform_range) simp
      ultimately show ?thesis using 2 by auto
    next
      case 3
      define s where "s = fst (rng_uniform 90 180 g2)"
      define g3 where "g3 = snd (rng_uniform 90 180 g2)"
      define gap where "gap = fst (rng_uniform 2 4 g3)"
      define g4 where "g4 = snd (rng_uniform 2 4 g3)"
      define lst where "lst = fst (rng_uniform 0 (15 / 10) g4)"
      have "lanes (ensure_lane Random w r ft) r = Some (Lane_new Random lt r d s gap lst [] seed)"
        using assms(1) 3
        by (simp add: ensure_lane_def c split_beta d_def g1_def seed_def g2_def s_def g3_def
            gap_def g4_def lst_def)
      moreover have "90 \<le> s \<and> s < 180" unfolding s_def by (rule rng_uniform_range) simp
      ultimately show ?thesis using 3 by auto
    qed
  qed
  then obtain s gap lst where s: "lt = LANE_RIVER \<longrightarrow> 90 \<le> s \<and> s < 180"
      "lt = LANE_ROAD \<longrightarrow> 140 \<le> s \<and> s < 260"
    and l: "lanes (ensure_lane Random w r ft) r = Some (Lane_new Random lt r d s gap lst [] seed)"
    by blast
  from Lane_new_ok[OF d lt s, of Random r gap lst seed] l show ?thesis
    unfolding lt_def by (simp add: Lane_new_fields)
qed

lemma ensure_lane_ok:
  assumes "world_ok Random w" "ft = None \<or> ft = Some LANE_GRASS"
  shows "world_ok Random (ensure_lane Random w r ft)"
proof (cases "lanes w r")
  case None
  from ensure_lane_new[OF None assms(2), of Random] obtain l where
    l: "lanes (ensure_lane Random w r ft) r = Some l" "lane_ok Random l" "Lane.row l = r"
    by blast
  show ?thesis unfolding world_ok_def
  proof (intro allI impI)
    fix r' l' assume a: "lanes (ensure_lane Random w r ft) r' = Some l'"
    show "lane_ok Random l' \<and> Lane.row l' = r'"
    proof (cases "r' = r")
      case True with a l show ?thesis by simp
    next
      case False
      with a have "lanes w r' = Some l'" by (simp add: ensure_lane_other)
      with assms(1) show ?thesis by (simp add: world_ok_def)
    qed
  qed
next
  case (Some l)
  then show ?thesis using assms(1) by (simp add: ensure_lane_noop)
qed

lemma reset_loop_ok: "world_ok Random w \<Longrightarrow> world_ok Random (reset_loop Random w rs)"
  by (induction rs arbitrary: w) (simp_all add: ensure_lane_ok)

lemma World_reset_ok: "world_ok Random (fst (World_reset Random w g))"
proof -
  have "world_ok Random (w\<lparr>lanes := Map.empty, rng := Random seed, max_generated_row := - 1\<rparr>)" for seed
    by (simp add: world_ok_def)
  then show ?thesis by (simp add: World_reset_def split_beta reset_loop_ok)
qed

lemma world_ok_max: "world_ok Random (w\<lparr>max_generated_row := m\<rparr>) = world_ok Random w"
  by (simp add: world_ok_def)

lemma generate_loop_ok: "world_ok Random w \<Longrightarrow> world_ok Random (generate_loop Random w rs)"
  by (induction rs arbitrary: w) (simp_all add: ensure_lane_ok Let_def world_ok_max)

lemma generate_around_ok: "world_ok Random w \<Longrightarrow> world_ok Random (generate_around Random w p)"
proof -
  assume "world_ok Random w"
  then have "world_ok Random (generate_loop Random w rs)" for rs by (rule generate_loop_ok)
  then show ?thesis by (simp add: generate_around_def Let_def world_ok_def)
qed

lemma lane_at_ok:
  assumes "world_ok Random w" "lane_at Random w r = (lane, w')"
  shows "world_ok Random w' \<and> lanes w' r = Some lane \<and> lane_ok Random lane \<and> Lane.row lane = r"
proof -
  from assms(2) have w': "w' = ensure_lane Random w r None" and l: "lane = the (lanes w' r)"
    by (auto simp: lane_at_def Let_def)
  from assms(1) have ok: "world_ok Random w'" unfolding w' by (simp add: ensure_lane_ok)
  from ensure_lane_present[of Random w r None] have "lanes w' r = Some lane"
    unfolding w'[symmetric] l by auto
  with ok show ?thesis by (auto simp: world_ok_def)
qed


subsection \<open>Lane updates keep the generated part of a lane\<close>

lemma spawn_vehicle_static:
  "static (fst (spawn_vehicle l dt t g)) = static l"
  by (simp add: spawn_vehicle_def static_def Let_def split_beta)

lemma spawn_log_static:
  "static (fst (spawn_log l dt t g)) = static l"
  by (simp add: spawn_log_def static_def Let_def split_beta)

lemma Lane_update_static: "static (fst (Lane_update l dt t g)) = static l"
  by (simp add: Lane_update_def Let_def spawn_vehicle_static spawn_log_static)
     (simp add: static_def)

lemma spawn_vehicle_objects:
  "list_all (\<lambda>ob. Obstacle.speed ob = Lane.speed l * real_of_int (direction l)) (objects l)
   \<Longrightarrow> list_all (\<lambda>ob. Obstacle.speed ob = Lane.speed l * real_of_int (direction l))
         (objects (fst (spawn_vehicle l dt t g)))"
  by (simp add: spawn_vehicle_def Let_def split_beta)

lemma spawn_log_objects:
  "list_all (\<lambda>ob. Obstacle.speed ob = Lane.speed l * real_of_int (direction l)) (objects l)
   \<Longrightarrow> list_all (\<lambda>ob. Obstacle.speed ob = Lane.speed l * real_of_int (direction l))
         (objects (fst (spawn_log l dt t g)))"
  by (simp add: spawn_log_def Let_def split_beta)

lemma Lane_update_objects:
  assumes "list_all (\<lambda>ob. Obstacle.speed ob = Lane.speed l * real_of_int (direction l)) (objects l)"
  shows "list_all (\<lambda>ob. Obstacle.speed ob = Lane.speed l * real_of_int (direction l))
         (objects (fst (Lane_update l dt t g)))"
proof -
  let ?P = "\<lambda>ob. Obstacle.speed ob = Lane.speed l * real_of_int (direction l)"
  let ?l1 = "l\<lparr>objects := map (\<lambda>ob. Obstacle_update ob dt) (objects l)\<rparr>"
  let ?l2 = "?l1\<lparr>objects := filter (\<lambda>ob. \<not> is_far_offscreen ob) (objects ?l1)\<rparr>"
  from assms have 1: "list_all ?P (objects ?l1)"
    by (simp add: list_all_iff Obstacle_update_def)
  then have 2: "list_all ?P (objects ?l2)"
    by (auto simp add: list_all_iff)
  have s1: "Lane.speed ?l1 = Lane.speed l" "direction ?l1 = direction l" by simp_all
  have s2: "Lane.speed ?l2 = Lane.speed l" "direction ?l2 = direction l" by simp_all
  from spawn_vehicle_objects[of ?l2 dt t g] spawn_log_objects[of ?l2 dt t g] 2
  have "list_all ?P (objects (fst (spawn_vehicle ?l2 dt t g)))"
       "list_all ?P (objects (fst (spawn_log ?l2 dt t g)))"
    unfolding s2 by simp_all
  moreover from spawn_vehicle_objects[of ?l1 dt t g] spawn_log_objects[of ?l1 dt t g] 1
  have "list_all ?P (objects (fst (spawn_vehicle ?l1 dt t g)))"
       "list_all ?P (objects (fst (spawn_log ?l1 dt t g)))"
    unfolding s1 by simp_all
  ultimately show ?thesis using 1 2
    by (simp add: Lane_update_def Let_def)
qed

lemma Lane_update_ok:
  assumes "lane_ok Random l"
  shows "lane_ok Random (fst (Lane_update l dt t g)) \<and> Lane.row (fst (Lane_update l dt t g)) = Lane.row l"
proof -
  have st: "static (fst (Lane_update l dt t g)) = static l" by (rule Lane_update_static)
  from assms have "list_all (\<lambda>ob. Obstacle.speed ob = Lane.speed l * real_of_int (direction l)) (objects l)"
    by (simp add: lane_ok_def)
  from Lane_update_objects[OF this, of dt t g] assms st show ?thesis
    by (simp add: lane_ok_def static_def)
qed

lemma update_loop_ok:
  "world_ok Random w \<Longrightarrow> world_ok Random (fst (update_loop w dt t g rs))"
proof (induction w dt t g rs rule: update_loop.induct)
  case (1 w dt t_total g)
  then show ?case by simp
next
  case (2 w dt t_total g r rs)
  show ?case
  proof (cases "r < 0 \<or> lanes w r = None")
    case True
    with 2 show ?thesis by auto
  next
    case False
    then obtain lane where lane: "lanes w r = Some lane" and r: "\<not> r < 0" by auto
    obtain lane' g' where lu: "Lane_update lane dt t_total g = (lane', g')"
      by (cases "Lane_update lane dt t_total g")
    from "2.prems" lane have "lane_ok Random lane" "Lane.row lane = r" by (auto simp: world_ok_def)
    with Lane_update_ok[of Random lane dt t_total g] lu
    have "lane_ok Random lane'" "Lane.row lane' = r" by auto
    with "2.prems" have "world_ok Random (w\<lparr>lanes := (lanes w)(r \<mapsto> lane')\<rparr>)"
      by (simp add: world_ok_def)
    from "2.IH"(3)[OF r lane lu[symmetric] this] lane r lu show ?thesis by simp
  qed
qed

lemma World_update_ok:
  "world_ok Random w \<Longrightarrow> world_ok Random (fst (World_update Random w dt t p g))"
  by (simp add: World_update_def update_loop_ok generate_around_ok)


lemma World_run_ok:
  "world_ok Random (fst wg) \<Longrightarrow> world_ok Random (fst (World_run Random wg ss))"
  by (induction ss arbitrary: wg) (simp_all add: World_update_ok)

subsection \<open>Every state of a game satisfies the world invariant\<close>

lemma can_move_to_ok:
  "world_ok Random (world g) \<Longrightarrow> world_ok Random (world (snd (can_move_to Random g dc dr)))"
  by (simp add: can_move_to_def Let_def split_beta lane_at_def ensure_lane_ok)

lemma try_hop_ok:
  "world_ok Random (world g) \<Longrightarrow> world_ok Random (world (try_hop Random now g dc dr))"
  using can_move_to_ok[of Random g dc dr] by (simp add: try_hop_def split_beta)

lemma Game_reset_ok: "world_ok Random (world (Game_reset Random g))"
  using World_reset_ok[of Random "world g" "random g"]
  by (simp add: Game_reset_def split_beta Let_def)

lemma Game_init_ok: "world_ok Random (world (Game_init Random rnd))"
  by (simp add: Game_init_def Game_reset_ok)

lemma handle_event_ok:
  "world_ok Random (world g) \<Longrightarrow> handle_event Random g en = Some g' \<Longrightarrow> world_ok Random (world g')"
  by (auto simp: handle_event_def Let_def try_hop_ok Game_reset_ok split: event.splits if_splits)

lemma handle_events_ok:
  "world_ok Random (world g) \<Longrightarrow> handle_events Random g ens = Some g' \<Longrightarrow> world_ok Random (world g')"
  by (induction ens arbitrary: g) (auto split: option.splits dest: handle_event_ok)

lemma Game_update_ok:
  assumes "world_ok Random (world g)"
  shows "world_ok Random (world (Game_update Random g dt))"
proof (cases "alive (player g)")
  case False
  then show ?thesis using assms by (simp add: Game_update_def)
next
  case True
  obtain w1 rnd where wu: "World_update Random (world g) dt (t_total g) (Player.row (player g)) (random g) = (w1, rnd)"
    by (cases "World_update Random (world g) dt (t_total g) (Player.row (player g)) (random g)")
  from World_update_ok[OF assms, of dt "t_total g" "Player.row (player g)" "random g"] wu
  have ok1: "world_ok Random w1" by simp
  have ok2: "world_ok Random (snd (lane_at Random w1 r))" for r
    using ok1 by (simp add: lane_at_def Let_def ensure_lane_ok)
  have ok3: "world_ok Random (snd (lane_at Random (snd (lane_at Random w1 r)) r'))" for r r'
    using ok2[of r] by (simp add: lane_at_def Let_def ensure_lane_ok)
  show ?thesis using True wu ok2 ok3
    by (simp add: Game_update_def Let_def split_beta)
qed

lemma run_frame_ok:
  "world_ok Random (world g) \<Longrightarrow> run_frame Random g fr = Some g' \<Longrightarrow> world_ok Random (world g')"
  using handle_events_ok[of Random "g\<lparr>t_total := t_total g + fst fr\<rparr>" "snd fr"]
  by (auto simp: run_frame_def Game_update_ok split: option.splits)

lemma run_ok:
  "world_ok Random (world g) \<Longrightarrow> run Random g frs = Some g' \<Longrightarrow> world_ok Random (world g')"
  by (induction frs arbitrary: g) (auto split: option.splits dest: run_frame_ok)


subsection \<open>The player after one simulation step\<close>

lemma Game_update_player:
  assumes "alive (player g)"
    and wu: "World_update Random (world g) dt (t_total g) (Player.row (player g)) (random g) = (w1, rnd)"
    and la: "lane_at Random w1 (Player.row (player g)) = (lane, w2)"
  shows "player (Game_update Random g dt) =
     (let p1 = (player g)\<lparr>riding_dx := 0\<rparr>;
          p2 = p1\<lparr>score := max (score p1) (Player.row p1 - 2)\<rparr>;
          p3 = p2\<lparr>score_best := max (score_best p2) (score p2)\<rparr>;
          p4 = (if lane_type lane = LANE_RIVER
                then (case player_on_log p3 lane of
                        None \<Rightarrow> p3\<lparr>alive := False\<rparr>
                      | Some on_log \<Rightarrow> p3\<lparr>riding_dx := Obstacle.speed on_log\<rparr>)
                else p3);
          p5 = (if lane_type lane = LANE_ROAD \<and> player_hit_car p4 lane
                then p4\<lparr>alive := False\<rparr> else p4);
          p6 = Player_update p5 dt
      in if alive p6 \<and> lane_type (fst (lane_at Random w2 (Player.row p6))) = LANE_ROAD
            \<and> player_hit_car p6 (fst (lane_at Random w2 (Player.row p6)))
         then p6\<lparr>alive := False\<rparr> else p6)"
proof -
  define p1 where "p1 = (player g)\<lparr>riding_dx := 0\<rparr>"
  define p2 where "p2 = p1\<lparr>score := max (score p1) (Player.row p1 - 2)\<rparr>"
  define p3 where "p3 = p2\<lparr>score_best := max (score_best p2) (score p2)\<rparr>"
  have r3: "Player.row p3 = Player.row (player g)" by (simp add: p3_def p2_def p1_def)
  define p4 where "p4 = (if lane_type lane = LANE_RIVER
                  then (case player_on_log p3 lane of
                          None \<Rightarrow> p3\<lparr>alive := False\<rparr>
                        | Some on_log \<Rightarrow> p3\<lparr>riding_dx := Obstacle.speed on_log\<rparr>)
                  else p3)"
  define p5 where "p5 = (if lane_type lane = LANE_ROAD \<and> player_hit_car p4 lane
                  then p4\<lparr>alive := False\<rparr> else p4)"
  define p6 where "p6 = Player_update p5 dt"
  define X where "X = (if alive p6
                 then (case lane_at Random w2 (Player.row p6) of
                         (lane2, w3) \<Rightarrow>
                           (if lane_type lane2 = LANE_ROAD \<and> player_hit_car p6 lane2
                            then p6\<lparr>alive := False\<rparr> else p6, w3))
                 else (p6, w2))"
  have "Game_update Random g dt =
      (case X of (p7, w3) \<Rightarrow>
        let desired_camera = (- Player.row p7 * TILE) - WINDOW_H + 10 * TILE
        in g\<lparr>world := w3, player := p7, random := rnd,
             camera_y := camera_y g
               + py_int (real_of_int (desired_camera - camera_y g) * clamp (dt * 6) 0 1)\<rparr>)"
    unfolding Game_update_def
    apply (simp only: assms(1) simp_thms if_False wu prod.case)
    apply (fold p1_def)
    apply (simp only: Let_def[of p1])
    apply (fold p2_def)
    apply (simp only: Let_def[of p2])
    apply (fold p3_def)
    apply (simp only: Let_def[of p3] r3 la prod.case)
    apply (fold p4_def)
    apply (simp only: Let_def[of p4])
    apply (fold p5_def)
    apply (simp only: Let_def[of p5])
    apply (fold p6_def)
    apply (simp only: Let_def[of p6])
    apply (fold X_def)
    apply (rule refl)
    done
  then have "player (Game_update Random g dt) = fst X"
    by (simp add: split_beta Let_def)
  also have "fst X = (if alive p6 \<and> lane_type (fst (lane_at Random w2 (Player.row p6))) = LANE_ROAD
            \<and> player_hit_car p6 (fst (lane_at Random w2 (Player.row p6)))
         then p6\<lparr>alive := False\<rparr> else p6)"
    by (simp add: X_def split_beta)
  finally show ?thesis
    unfolding p6_def p5_def p4_def p3_def p2_def p1_def Let_def .
qed

lemma Game_update_player_form:
  assumes "alive (player g)"
  shows "\<exists>p5. Player.row p5 = Player.row (player g) \<and> x p5 = x (player g)
           \<and> (player (Game_update Random g dt) = Player_update p5 dt
                \<or> player (Game_update Random g dt) = (Player_update p5 dt)\<lparr>alive := False\<rparr>)"
proof -
  obtain w1 rnd where wu: "World_update Random (world g) dt (t_total g) (Player.row (player g)) (random g) = (w1, rnd)"
    by (cases "World_update Random (world g) dt (t_total g) (Player.row (player g)) (random g)")
  define p1 where "p1 = (player g)\<lparr>riding_dx := 0\<rparr>"
  define p2 where "p2 = p1\<lparr>score := max (score p1) (Player.row p1 - 2)\<rparr>"
  define p3 where "p3 = p2\<lparr>score_best := max (score_best p2) (score p2)\<rparr>"
  obtain lane w2 where la: "lane_at Random w1 (Player.row p3) = (lane, w2)"
    by (cases "lane_at Random w1 (Player.row p3)")
  define p4 where "p4 = (if lane_type lane = LANE_RIVER
                  then (case player_on_log p3 lane of
                          None \<Rightarrow> p3\<lparr>alive := False\<rparr>
                        | Some on_log \<Rightarrow> p3\<lparr>riding_dx := Obstacle.speed on_log\<rparr>)
                  else p3)"
  define p5 where "p5 = (if lane_type lane = LANE_ROAD \<and> player_hit_car p4 lane
                  then p4\<lparr>alive := False\<rparr> else p4)"
  define p6 where "p6 = Player_update p5 dt"
  define X where "X = (if alive p6
                 then (case lane_at Random w2 (Player.row p6) of
                         (lane2, w3) \<Rightarrow>
                           (if lane_type lane2 = LANE_ROAD \<and> player_hit_car p6 lane2
                            then p6\<lparr>alive := False\<rparr> else p6, w3))
                 else (p6, w2))"
  have "Player.row p3 = Player.row (player g) \<and> x p3 = x (player g)"
    by (simp add: p3_def p2_def p1_def)
  then have "Player.row p4 = Player.row (player g) \<and> x p4 = x (player g)"
    by (simp add: p4_def split: option.splits)
  then have 5: "Player.row p5 = Player.row (player g) \<and> x p5 = x (player g)"
    by (simp add: p5_def)
  have "Game_update Random g dt =
      (case X of (p7, w3) \<Rightarrow>
        let desired_camera = (- Player.row p7 * TILE) - WINDOW_H + 10 * TILE
        in g\<lparr>world := w3, player := p7, random := rnd,
             camera_y := camera_y g
               + py_int (real_of_int (desired_camera - camera_y g) * clamp (dt * 6) 0 1)\<rparr>)"
    unfolding Game_update_def
    apply (simp only: assms simp_thms if_False wu prod.case)
    apply (fold p1_def)
    apply (simp only: Let_def[of p1])
    apply (fold p2_def)
    apply (simp only: Let_def[of p2])
    apply (fold p3_def)
    apply (simp only: Let_def[of p3] la prod.case)
    apply (fold p4_def)
    apply (simp only: Let_def[of p4])
    apply (fold p5_def)
    apply (simp only: Let_def[of p5])
    apply (fold p6_def)
    apply (simp only: Let_def[of p6])
    apply (fold X_def)
    apply (rule refl)
    done
  then have "player (Game_update Random g dt) = fst X"
    by (simp add: split_beta Let_def)
  moreover have "fst X = p6 \<or> fst X = p6\<lparr>alive := False\<rparr>"
    by (simp add: X_def split_beta)
  ultimately show ?thesis using 5 unfolding p6_def by metis
qed

lemma Player_update_row: "Player.row (Player_update p dt) = Player.row p"
  by (simp add: Player_update_def Let_def)

lemma Game_update_row: "Player.row (player (Game_update Random g dt)) = Player.row (player g)"
proof (cases "alive (player g)")
  case False
  then show ?thesis by (simp add: Game_update_def)
next
  case True
  from Game_update_player_form[OF True, of Random dt] show ?thesis
    by (auto simp: Player_update_row)
qed

lemma Player_hop_row:
  "Player.row (Player_hop now p dc dr) =
     (if alive p \<and> can_hop now p then max 0 (Player.row p + dr) else Player.row p)"
  by (simp add: Player_hop_def Let_def)

lemma try_hop_player:
  "player (try_hop Random now g dc dr) = player g
   \<or> player (try_hop Random now g dc dr) = Player_hop now (player g) dc dr"
  by (simp add: try_hop_def can_move_to_def Let_def split_beta)


lemma try_hop_rejected:
  "\<not> can_hop now (player g) \<or> \<not> fst (can_move_to Random g dc dr) \<Longrightarrow>
   player (try_hop Random now g dc dr) = player g"
  by (auto simp: try_hop_def can_move_to_def Player_hop_def Let_def split_beta)

lemma try_hop_rejected_present:
  assumes "\<not> can_hop now (player g) \<or> \<not> fst (can_move_to Random g dc dr)"
    and "lanes (world g) (max 0 (Player.row (player g) + dr)) \<noteq> None"
  shows "try_hop Random now g dc dr = g"
proof -
  from assms(2) obtain l where l: "lanes (world g) (max 0 (Player.row (player g) + dr)) = Some l"
    by blast
  have c: "snd (can_move_to Random g dc dr) = g"
    using lane_at_present[OF l, of Random] by (simp add: can_move_to_def Let_def)
  show ?thesis
  proof (cases "fst (can_move_to Random g dc dr)")
    case True
    with assms(1) have "Player_hop now (player g) dc dr = player g"
      by (simp add: Player_hop_def)
    with True c show ?thesis by (simp add: try_hop_def split_beta)
  next
    case False
    with c show ?thesis by (simp add: try_hop_def split_beta)
  qed
qed

lemma try_hop_accepted:
  assumes "alive (player g)" "can_hop now (player g)" "fst (can_move_to Random g dc dr)"
  shows "player (try_hop Random now g dc dr) = Player_hop now (player g) dc dr"
  using assms by (auto simp: try_hop_def can_move_to_def Let_def split_beta)


lemma can_move_to_Random0:
  assumes "world_ok Random0 (world g)"
  shows "fst (can_move_to Random0 g dc dr)"
proof -
  let ?r = "max 0 (Player.row (player g) + dr)"
  obtain lane w' where la: "lane_at Random0 (world g) ?r = (lane, w')"
    by (cases "lane_at Random0 (world g) ?r")
  from lane_at_ok[OF assms la] have "lane_ok Random0 lane" by simp
  then have "tree_positions lane = []"
    by (simp add: lane_ok_def tree_loop_Random0 split: if_splits)
  with la show ?thesis by (simp add: can_move_to_def Let_def has_tree_at_def)
qed


text \<open>The first frame of a game in which the down key is pressed: the hop is accepted
  (row 1 is a grass lane without trees under \<open>Random0\<close>).\<close>

lemma run_down_hop:
  "run Random0 (Game_init Random0 rnd0) [(16 / 1000, [(KEYDOWN K_DOWN, 200)])]
     = Some (Game_update Random0
         (try_hop Random0 200
            ((Game_init Random0 rnd0)\<lparr>t_total := t_total (Game_init Random0 rnd0) + 16 / 1000\<rparr>)
            0 (- 1)) (16 / 1000))
   \<and> player (try_hop Random0 200
        ((Game_init Random0 rnd0)\<lparr>t_total := t_total (Game_init Random0 rnd0) + 16 / 1000\<rparr>)
        0 (- 1))
      = Player_hop 200 (player (Game_init Random0 rnd0)) 0 (- 1)"
proof -
  let ?g = "(Game_init Random0 rnd0)\<lparr>t_total := t_total (Game_init Random0 rnd0) + 16 / 1000\<rparr>"
  have ok: "world_ok Random0 (world ?g)" by (simp add: Game_init_ok)
  have al: "alive (player ?g)" "can_hop 200 (player ?g)"
    by (simp_all add: Game_init_player can_hop_def)
  have "run Random0 (Game_init Random0 rnd0) [(16 / 1000, [(KEYDOWN K_DOWN, 200)])]
      = Some (Game_update Random0 (try_hop Random0 200 ?g 0 (- 1)) (16 / 1000))"
    using al(1) by (simp add: run_frame_def handle_event_def)
  moreover have "player (try_hop Random0 200 ?g 0 (- 1)) = Player_hop 200 (player ?g) 0 (- 1)"
    using al can_move_to_Random0[OF ok] by (rule try_hop_accepted)
  ultimately show ?thesis by simp
qed

subsection \<open>Obstacle movement\<close>

lemma Obstacle_update_rect:
  "rect (Obstacle_update ob dt) = (rect ob)\<lparr>rx := rx (rect ob) + py_int (Obstacle.speed ob * dt)\<rparr>
   \<and> Obstacle.speed (Obstacle_update ob dt) = Obstacle.speed ob
   \<and> kind (Obstacle_update ob dt) = kind ob \<and> color (Obstacle_update ob dt) = color ob"
  by (simp add: Obstacle_update_def)

text \<open>
  Claim C2 (the obstacle moves by exactly velocity times dt) fails on the code:
  \<open>Obstacle.update\<close> adds \<open>int(self.speed * dt)\<close>, the product truncated towards zero.
  A log of speed 100 px/s advanced by a 16 ms frame moves 1 px, while velocity times dt is
  1.6 px.
\<close>

theorem Obstacle_update_truncates:
  "rx (rect (Obstacle_update
        \<lparr>rect = mk_Rect 0 0 96 33, speed = 100, color = (128, 86, 50), kind = ''log''\<rparr>
        (16 / 1000))) - 0 = 1
   \<and> (100::real) * (16 / 1000) = 8 / 5"
  by (simp add: Obstacle_update_def mk_Rect_def py_int_def)

subsection \<open>Riding a log\<close>

lemma support_point_cong:
  "x p' = x p \<Longrightarrow> Player.row p' = Player.row p \<Longrightarrow> support_point p' = support_point p"
  by (simp add: support_point_def rect_world_def tile_rect_world_def)

lemma Player_update_x:
  "alive p \<Longrightarrow> \<bar>riding_dx p\<bar> \<ge> 1 / 1000 \<Longrightarrow> x (Player_update p dt) = x p + riding_dx p * dt"
  by (simp add: Player_update_def Let_def)

lemma Game_update_riding:
  assumes "alive (player g)"
    and "World_update Random (world g) dt (t_total g) (Player.row (player g)) (random g) = (w1, rnd)"
    and "lane_at Random w1 (Player.row (player g)) = (lane, w2)"
    and "lane_type lane = LANE_RIVER"
    and "player_on_log (player g) lane = Some ob0"
    and "\<bar>Obstacle.speed ob0\<bar> \<ge> 1 / 1000"
  shows "x (player (Game_update Random g dt)) = x (player g) + Obstacle.speed ob0 * dt"
proof -
  let ?p3 = "(player g)\<lparr>riding_dx := 0, score := max (score (player g)) (Player.row (player g) - 2),
      score_best := max (score_best (player g)) (max (score (player g)) (Player.row (player g) - 2))\<rparr>"
  have pl: "player_on_log ?p3 lane = Some ob0"
    using assms(5) support_point_cong[of ?p3 "player g"] by (simp add: player_on_log_def)
  let ?p5 = "?p3\<lparr>riding_dx := Obstacle.speed ob0\<rparr>"
  have x6: "x (Player_update ?p5 dt) = x (player g) + Obstacle.speed ob0 * dt"
    using assms(1,6) Player_update_x[of ?p5 dt] by simp
  have "x (player (Game_update Random g dt)) = x (Player_update ?p5 dt)"
    using assms(1-4) pl by (simp add: Game_update_def Let_def split_beta)
  with x6 show ?thesis by simp
qed


text \<open>
  Claim C1: in a tick without a hop, an alive player on a river lane whose support point
  lies in the expanded rectangle of a log \<open>ob\<close> of that lane (as the lane stands after the
  world update of the tick) is displaced by exactly the log's velocity times \<open>dt\<close>.  The
  hypothesis \<open>world_ok\<close> holds in every state of a game (lemmas \<open>Game_init_ok\<close> and
  \<open>run_ok\<close>): all logs of a lane share the lane's velocity, whose magnitude is at least 90.
\<close>

theorem riding_invariant:
  assumes "world_ok Random (world g)"
    and "alive (player g)"
    and "World_update Random (world g) dt (t_total g) (Player.row (player g)) (random g) = (w1, rnd)"
    and "lane_at Random w1 (Player.row (player g)) = (lane, w2)"
    and "lane_type lane = LANE_RIVER"
    and "ob \<in> set (objects lane)" and "kind ob = ''log''"
    and "collidepoint (inflate (rect ob) 10 8) (support_point (player g))"
  shows "x (player (Game_update Random g dt)) = x (player g) + Obstacle.speed ob * dt"
proof -
  from World_update_ok[OF assms(1), of dt "t_total g" "Player.row (player g)" "random g"] assms(3)
  have "world_ok Random w1" by simp
  from lane_at_ok[OF this assms(4)] have lok: "lane_ok Random lane" by simp
  then have sp: "list_all (\<lambda>o'. Obstacle.speed o' = Lane.speed lane * real_of_int (direction lane)) (objects lane)"
    and dir: "direction lane = - 1 \<or> direction lane = 1"
    and rs: "90 \<le> Lane.speed lane"
    using assms(5) by (simp_all add: lane_ok_def)
  let ?P = "\<lambda>o'. kind o' = ''log'' \<and> collidepoint (inflate (rect o') 10 8) (support_point (player g))"
  from assms(6-8) have "\<exists>o'\<in>set (objects lane). ?P o'" by blast
  then obtain ob0 where f: "find ?P (objects lane) = Some ob0"
    by (cases "find ?P (objects lane)") (auto simp: find_None_iff)
  then have "ob0 \<in> set (objects lane)" by (auto simp: find_Some_iff in_set_conv_nth)
  with sp assms(6) have eq: "Obstacle.speed ob0 = Lane.speed lane * real_of_int (direction lane)"
    "Obstacle.speed ob = Lane.speed lane * real_of_int (direction lane)"
    by (simp_all add: list_all_iff)
  from dir rs eq have big: "\<bar>Obstacle.speed ob0\<bar> \<ge> 1 / 1000" by auto
  from f have "player_on_log (player g) lane = Some ob0" by (simp add: player_on_log_def)
  from Game_update_riding[OF assms(2-5) this big] eq show ?thesis by simp
qed


lemma river_game_ok: "world_ok Random0 (world river_game)"
  by (simp add: world_ok_def river_game_def lane_ok_def river_lane_def river_log_def)

lemma river_gen_lanes:
  "lanes (generate_around Random0 (world river_game) 12) r = (if r = 12 then Some river_lane else None)"
  by (simp add: generate_around_def river_game_def Let_def upto.simps)

lemma river_Lane_update:
  "Lane_update river_lane (1 / 10) t g
    = (river_lane\<lparr>objects := [river_log\<lparr>rect := mk_Rect 615 (- 569) 144 33\<rparr>], last_spawn_t := 19 / 10\<rparr>, g)"
  by (simp add: Lane_update_def river_lane_def river_log_def Obstacle_update_def py_int_def
      is_far_offscreen_def left_def right_def mk_Rect_def spawn_log_def Let_def)

lemma river_World_update:
  "lanes (fst (World_update Random0 (world river_game) (1 / 10) t 12 g)) 12
    = Some (river_lane\<lparr>objects := [river_log\<lparr>rect := mk_Rect 615 (- 569) 144 33\<rparr>], last_spawn_t := 19 / 10\<rparr>)"
  by (simp add: World_update_def upto.simps river_gen_lanes river_Lane_update)

lemma river_player:
  "player river_game = \<lparr>x = 672, row = 12, alive = True, score_best = 10, score = 10,
     last_hop_ms = 0, riding_dx = 0, hop_progress = 0, hop_animating = False\<rparr>"
  by (simp add: river_game_def)


lemma river_lane_at:
  "lane_at Random0
     (fst (World_update Random0 (world river_game) (1 / 10) (t_total river_game)
             (Player.row (player river_game)) (random river_game)))
     (Player.row (player river_game))
   = (river_lane\<lparr>objects := [river_log\<lparr>rect := mk_Rect 615 (- 569) 144 33\<rparr>],
        last_spawn_t := 19 / 10\<rparr>,
      fst (World_update Random0 (world river_game) (1 / 10) (t_total river_game)
             (Player.row (player river_game)) (random river_game)))"
  by (rule lane_at_present) (simp add: river_player river_World_update)

lemma river_supported:
  "collidepoint (inflate (rect (river_log\<lparr>rect := mk_Rect 615 (- 569) 144 33\<rparr>)) 10 8)
     (support_point (player river_game))"
  by (simp add: river_player support_point_def rect_world_def tile_rect_world_def mk_Rect_def
      centerx_def bottom_def inflate_def collidepoint_def py_int_def Let_def)

lemma river_tick_player:
  "player (Game_update Random0 river_game (1 / 10))
     = \<lparr>x = 687, row = 12, alive = True, score_best = 10, score = 10,
        last_hop_ms = 0, riding_dx = 150, hop_progress = 0, hop_animating = False\<rparr>"
proof -
  let ?W = "World_update Random0 (world river_game) (1 / 10) (t_total river_game)
              (Player.row (player river_game)) (random river_game)"
  let ?lane = "river_lane\<lparr>objects := [river_log\<lparr>rect := mk_Rect 615 (- 569) 144 33\<rparr>],
                 last_spawn_t := 19 / 10\<rparr>"
  have al: "alive (player river_game)" by (simp add: river_player)
  have wu: "?W = (fst ?W, snd ?W)" by simp
  have l12: "lanes (fst ?W) 12 = Some ?lane"
    by (simp add: river_player river_World_update)
  then have la: "lane_at Random0 (fst ?W) (Player.row (player river_game)) = (?lane, fst ?W)"
    by (simp add: river_player lane_at_present)
  have la2: "fst (lane_at Random0 (fst (World_update Random0 (world river_game) (1 / 10)
                   (t_total river_game) 12 (random river_game))) 12) = ?lane"
    by (simp add: lane_at_present river_World_update)
  have lt: "lane_type ?lane = LANE_RIVER" by (simp add: river_lane_def)
  have pl: "player_on_log \<lparr>x = 672, row = 12, alive = True, score_best = 10, score = 10,
     last_hop_ms = 0, riding_dx = 0, hop_progress = 0, hop_animating = False\<rparr> ?lane
      = Some (river_log\<lparr>rect := mk_Rect 615 (- 569) 144 33\<rparr>)"
    by (simp add: river_lane_def river_log_def player_on_log_def support_point_def rect_world_def
      tile_rect_world_def mk_Rect_def centerx_def bottom_def inflate_def collidepoint_def
      py_int_def Let_def)
  have pu: "Player_update \<lparr>x = 672, row = 12, alive = True, score_best = 10, score = 10,
     last_hop_ms = 0, riding_dx = 150, hop_progress = 0, hop_animating = False\<rparr> (1 / 10)
     = \<lparr>x = 687, row = 12, alive = True, score_best = 10, score = 10,
        last_hop_ms = 0, riding_dx = 150, hop_progress = 0, hop_animating = False\<rparr>"
    by (simp add: Player_update_def rect_world_def tile_rect_world_def mk_Rect_def right_def
        left_def py_int_def Let_def)
  have sp: "Obstacle.speed (river_log\<lparr>rect := mk_Rect 615 (- 569) 144 33\<rparr>) = 150"
    by (simp add: river_log_def)
  show ?thesis
    unfolding Game_update_player[OF al wu la]
    by (simp add: Let_def lt river_player pl sp pu la2)
qed


theorem riding_invariant_witness:
  "world_ok Random0 (world river_game) \<and> alive (player river_game)
   \<and> lane_type (river_lane\<lparr>objects := [river_log\<lparr>rect := mk_Rect 615 (- 569) 144 33\<rparr>],
        last_spawn_t := 19 / 10\<rparr>) = LANE_RIVER
   \<and> kind (river_log\<lparr>rect := mk_Rect 615 (- 569) 144 33\<rparr>) = ''log''
   \<and> collidepoint (inflate (rect (river_log\<lparr>rect := mk_Rect 615 (- 569) 144 33\<rparr>)) 10 8)
        (support_point (player river_game))
   \<and> Obstacle.speed (river_log\<lparr>rect := mk_Rect 615 (- 569) 144 33\<rparr>) = 150
   \<and> x (player river_game) = 672
   \<and> x (player (Game_update Random0 river_game (1 / 10))) = 672 + 150 * (1 / 10)"
proof -
  let ?ob = "river_log\<lparr>rect := mk_Rect 615 (- 569) 144 33\<rparr>"
  let ?lane = "river_lane\<lparr>objects := [?ob], last_spawn_t := 19 / 10\<rparr>"
  have al: "alive (player river_game)" by (simp add: river_player)
  have lt: "lane_type ?lane = LANE_RIVER" by (simp add: river_lane_def)
  have mem: "?ob \<in> set (objects ?lane)" by simp
  have k: "kind ?ob = ''log''" "Obstacle.speed ?ob = 150" by (simp_all add: river_log_def)
  from riding_invariant[OF river_game_ok al surjective_pairing river_lane_at lt mem k(1)
      river_supported]
  show ?thesis using al lt k river_supported river_game_ok by (simp add: river_player)
qed

subsection \<open>The player's row\<close>

lemma try_hop_row_nonneg:
  "0 \<le> Player.row (player g) \<Longrightarrow> 0 \<le> Player.row (player (try_hop Random now g dc dr))"
  using try_hop_player[of Random now g dc dr] by (auto simp: Player_hop_row)

lemma handle_event_row_nonneg:
  "0 \<le> Player.row (player g) \<Longrightarrow> handle_event Random g en = Some g'
   \<Longrightarrow> 0 \<le> Player.row (player g')"
  by (auto simp: handle_event_def Let_def try_hop_row_nonneg Game_reset_player
      split: event.splits if_splits)

lemma handle_events_row_nonneg:
  "0 \<le> Player.row (player g) \<Longrightarrow> handle_events Random g ens = Some g'
   \<Longrightarrow> 0 \<le> Player.row (player g')"
  by (induction ens arbitrary: g) (auto split: option.splits dest: handle_event_row_nonneg)

lemma run_frame_row_nonneg:
  "0 \<le> Player.row (player g) \<Longrightarrow> run_frame Random g fr = Some g'
   \<Longrightarrow> 0 \<le> Player.row (player g')"
  using handle_events_row_nonneg[of "g\<lparr>t_total := t_total g + fst fr\<rparr>" Random "snd fr"]
  by (auto simp: run_frame_def Game_update_row split: option.splits)

lemma run_row_nonneg:
  "0 \<le> Player.row (player g) \<Longrightarrow> run Random g frs = Some g' \<Longrightarrow> 0 \<le> Player.row (player g')"
  by (induction frs arbitrary: g) (auto split: option.splits dest: run_frame_row_nonneg)


text \<open>
  Claim C3 says that the row never decreases and never drops below the starting row.
  The code accepts down-hops: pressing the down key in the first frame of a game takes the
  player from the starting row 2 to row 1.
\<close>

theorem down_hop_lowers_row:
  "Player.row (player (Game_init Random0 rnd0)) = 2
   \<and> run Random0 (Game_init Random0 rnd0) [(16 / 1000, [(KEYDOWN K_DOWN, 200)])] \<noteq> None
   \<and> Player.row (player (the (run Random0 (Game_init Random0 rnd0)
        [(16 / 1000, [(KEYDOWN K_DOWN, 200)])]))) = 1"
  using run_down_hop
  by (simp add: Game_update_row Player_hop_row) (simp add: Game_init_player can_hop_def)

text \<open>
  Claim C3 as amended: a tick never changes the row, an accepted hop sets it to
  \<open>max 0 (row + dr)\<close>, and over any sequence of frames (restarts included) the row never
  goes below 0.
\<close>

theorem row_floor_is_zero:
  "Player.row (player (Game_update Random g dt)) = Player.row (player g)
   \<and> (alive p \<and> can_hop now p \<longrightarrow> Player.row (Player_hop now p dc dr) = max 0 (Player.row p + dr))
   \<and> (0 \<le> Player.row (player g) \<and> run Random g frs = Some g' \<longrightarrow> 0 \<le> Player.row (player g'))"
  by (auto simp: Game_update_row Player_hop_row dest: run_row_nonneg)


theorem row_floor_is_zero_witness:
  "alive (player (Game_init Random0 rnd0)) \<and> can_hop 200 (player (Game_init Random0 rnd0))
   \<and> Player.row (Player_hop 200 (player (Game_init Random0 rnd0)) 0 (- 1)) = 1
   \<and> 0 \<le> Player.row (player (Game_init Random0 rnd0))
   \<and> run Random0 (Game_init Random0 rnd0) [(16 / 1000, [(KEYDOWN K_DOWN, 200)])] \<noteq> None
   \<and> 0 \<le> Player.row (player (the (run Random0 (Game_init Random0 rnd0)
            [(16 / 1000, [(KEYDOWN K_DOWN, 200)])])))"
proof -
  let ?g = "Game_init Random0 rnd0"
  let ?frs = "[(16 / 1000, [(KEYDOWN K_DOWN, 200)])]"
  have p: "alive (player ?g)" "can_hop 200 (player ?g)" "0 \<le> Player.row (player ?g)"
    "Player.row (player ?g) = 2"
    by (simp_all add: Game_init_player can_hop_def)
  from run_down_hop obtain g' where r: "run Random0 ?g ?frs = Some g'" by blast
  from row_floor_is_zero[of Random0 ?g "16 / 1000" "player ?g" 200 0 "- 1" ?frs g'] p r
  show ?thesis by simp
qed

subsection \<open>The player's horizontal position\<close>

lemma py_int_lower: "0 \<le> py_int v + 40 \<Longrightarrow> - 41 < v"
  by (auto simp: py_int_def split: if_splits) linarith

lemma py_int_upper: "py_int v + 8 \<le> 720 \<Longrightarrow> v < 713"
  by (auto simp: py_int_def split: if_splits)

lemma Player_update_bounds:
  assumes "alive (Player_update p dt)"
  shows "- 41 < x (Player_update p dt) \<and> x (Player_update p dt) < 713"
proof -
  define p1 where "p1 = (if hop_animating p
                  then (let q = p\<lparr>hop_progress := hop_progress p + dt * 8\<rparr>
                        in if hop_progress q \<ge> 1
                           then q\<lparr>hop_progress := 1, hop_animating := False\<rparr> else q)
                  else p)"
  define p2 where "p2 = (if \<bar>riding_dx p1\<bar> \<ge> 1 / 1000
                  then p1\<lparr>x := x p1 + riding_dx p1 * dt\<rparr> else p1)"
  have u: "Player_update p dt =
      (if \<not> alive p then p
       else if right (rect_world p2) < 0 \<or> left (rect_world p2) > WINDOW_W
            then p2\<lparr>alive := False\<rparr> else p2)"
    unfolding Player_update_def p2_def p1_def by (simp only: Let_def)
  show ?thesis
  proof (cases "alive p")
    case False
    with assms show ?thesis by (simp add: Player_update_def)
  next
    case True
    with assms u have nb: "\<not> (right (rect_world p2) < 0 \<or> left (rect_world p2) > WINDOW_W)"
      and e: "Player_update p dt = p2"
      by (auto split: if_splits)
    from nb have "0 \<le> py_int (x p2) + 40" "py_int (x p2) + 8 \<le> 720"
      by (simp_all add: rect_world_def tile_rect_world_def right_def left_def mk_Rect_def Let_def)
    with py_int_lower py_int_upper e show ?thesis by simp
  qed
qed

lemma Game_update_in_bounds:
  assumes "in_bounds (player g)"
  shows "in_bounds (player (Game_update Random g dt))"
proof (cases "alive (player g)")
  case False
  with assms show ?thesis by (simp add: Game_update_def)
next
  case True
  from Game_update_player_form[OF True, of Random dt] obtain p5 where
    "player (Game_update Random g dt) = Player_update p5 dt
     \<or> player (Game_update Random g dt) = (Player_update p5 dt)\<lparr>alive := False\<rparr>" by blast
  then show ?thesis using Player_update_bounds[of p5 dt] by (auto simp: in_bounds_def)
qed

lemma Player_hop_x:
  assumes "alive p" "can_hop now p"
  shows "0 \<le> x (Player_hop now p dc dr)
         \<and> x (Player_hop now p dc dr) \<le> real_of_int ((GRID_COLS - 1) * TILE)"
proof -
  define c where "c = clamp (grid_col p + dc) 0 (GRID_COLS - 1)"
  have c: "0 \<le> c \<and> c \<le> 14" by (simp add: c_def clamp_def)
  have "x (Player_hop now p dc dr) = real_of_int (c * TILE)"
    using assms by (simp add: Player_hop_def Let_def c_def grid_col_def)
  with c show ?thesis by simp
qed

lemma Player_hop_in_bounds: "in_bounds p \<Longrightarrow> in_bounds (Player_hop now p dc dr)"
proof (cases "alive p \<and> can_hop now p")
  case True
  with Player_hop_x[of p now dc dr] show ?thesis by (simp add: in_bounds_def)
next
  case False
  assume "in_bounds p"
  with False show ?thesis by (auto simp add: Player_hop_def)
qed

lemma try_hop_in_bounds:
  "in_bounds (player g) \<Longrightarrow> in_bounds (player (try_hop Random now g dc dr))"
  using try_hop_player[of Random now g dc dr] by (auto simp: Player_hop_in_bounds)

lemma handle_event_in_bounds:
  "in_bounds (player g) \<Longrightarrow> handle_event Random g en = Some g' \<Longrightarrow> in_bounds (player g')"
  by (auto simp: handle_event_def Let_def try_hop_in_bounds
      split: event.splits if_splits)
     (simp_all add: Game_reset_player in_bounds_def)

lemma handle_events_in_bounds:
  "in_bounds (player g) \<Longrightarrow> handle_events Random g ens = Some g' \<Longrightarrow> in_bounds (player g')"
  by (induction ens arbitrary: g) (auto split: option.splits dest: handle_event_in_bounds)

lemma run_frame_in_bounds:
  "in_bounds (player g) \<Longrightarrow> run_frame Random g fr = Some g' \<Longrightarrow> in_bounds (player g')"
  using handle_events_in_bounds[of "g\<lparr>t_total := t_total g + fst fr\<rparr>" Random "snd fr"]
  by (auto simp: run_frame_def Game_update_in_bounds split: option.splits)

lemma run_in_bounds:
  "in_bounds (player g) \<Longrightarrow> run Random g frs = Some g' \<Longrightarrow> in_bounds (player g')"
  by (induction frs arbitrary: g) (auto split: option.splits dest: run_frame_in_bounds)


text \<open>
  Claim C4 says that x always lies in the column range from 0 to (GRID_COLS - 1) * TILE = 672.
  \<open>Player.update\<close> does not clamp: a player standing in the last column on a log that
  moves right is carried to x = 687 by one tick of 0.1 s and is still alive.
\<close>

theorem riding_leaves_column_range:
  "alive (player river_game) \<and> x (player river_game) = 672
   \<and> alive (player (Game_update Random0 river_game (1 / 10)))
   \<and> x (player (Game_update Random0 river_game (1 / 10))) = 687
   \<and> \<not> 687 \<le> real_of_int ((GRID_COLS - 1) * TILE)"
  by (simp add: river_tick_player river_player)


lemma Player_update_x_still:
  "\<not> alive p \<or> riding_dx p = 0 \<Longrightarrow> x (Player_update p dt) = x p"
  by (auto simp: Player_update_def Let_def)

lemma player_on_log_cong:
  "x p' = x p \<Longrightarrow> Player.row p' = Player.row p \<Longrightarrow> player_on_log p' lane = player_on_log p lane"
  using support_point_cong[of p' p] by (simp add: player_on_log_def)

lemma Game_update_x_no_ride:
  assumes "\<not> rides Random g dt"
  shows "x (player (Game_update Random g dt)) = x (player g)"
proof (cases "alive (player g)")
  case False
  then show ?thesis by (simp add: Game_update_dead)
next
  case True
  define w1 where "w1 = fst (World_update Random (world g) dt (t_total g) (Player.row (player g)) (random g))"
  define lane where "lane = fst (lane_at Random w1 (Player.row (player g)))"
  define w2 where "w2 = snd (lane_at Random w1 (Player.row (player g)))"
  define p1 where "p1 = (player g)\<lparr>riding_dx := 0\<rparr>"
  define p2 where "p2 = p1\<lparr>score := max (score p1) (Player.row p1 - 2)\<rparr>"
  define p3 where "p3 = p2\<lparr>score_best := max (score_best p2) (score p2)\<rparr>"
  define p4 where "p4 = (if lane_type lane = LANE_RIVER
                  then (case player_on_log p3 lane of
                          None \<Rightarrow> p3\<lparr>alive := False\<rparr>
                        | Some on_log \<Rightarrow> p3\<lparr>riding_dx := Obstacle.speed on_log\<rparr>)
                  else p3)"
  define p5 where "p5 = (if lane_type lane = LANE_ROAD \<and> player_hit_car p4 lane
                  then p4\<lparr>alive := False\<rparr> else p4)"
  define p6 where "p6 = Player_update p5 dt"
  have wu: "World_update Random (world g) dt (t_total g) (Player.row (player g)) (random g)
      = (w1, snd (World_update Random (world g) dt (t_total g) (Player.row (player g)) (random g)))"
    by (simp add: w1_def)
  have la: "lane_at Random w1 (Player.row (player g)) = (lane, w2)"
    by (simp add: lane_def w2_def)
  from assms True have nr: "\<not> (lane_type lane = LANE_RIVER \<and> player_on_log (player g) lane \<noteq> None)"
    by (simp add: rides_def Let_def w1_def lane_def)
  have 3: "x p3 = x (player g)" "Player.row p3 = Player.row (player g)" "riding_dx p3 = 0"
    by (simp_all add: p3_def p2_def p1_def)
  have pl: "player_on_log p3 lane = player_on_log (player g) lane"
    using 3 by (intro player_on_log_cong)
  have 4: "x p4 = x (player g) \<and> (\<not> alive p4 \<or> riding_dx p4 = 0)"
    using nr pl 3 by (auto simp: p4_def)
  then have 5: "x p5 = x (player g) \<and> (\<not> alive p5 \<or> riding_dx p5 = 0)"
    by (auto simp: p5_def)
  have "player (Game_update Random g dt) =
      (if alive p6 \<and> lane_type (fst (lane_at Random w2 (Player.row p6))) = LANE_ROAD
            \<and> player_hit_car p6 (fst (lane_at Random w2 (Player.row p6)))
       then p6\<lparr>alive := False\<rparr> else p6)"
    using Game_update_player[OF True wu la]
    unfolding p6_def p5_def p4_def p3_def p2_def p1_def Let_def .
  then have "x (player (Game_update Random g dt)) = x p6" by simp
  with 5 show ?thesis by (simp add: p6_def Player_update_x_still)
qed

lemma Player_hop_grid:
  assumes "alive p" "can_hop now p"
  shows "x (Player_hop now p dc dr)
           = real_of_int (clamp (grid_col p + dc) 0 (GRID_COLS - 1) * TILE)
         \<and> 0 \<le> clamp (grid_col p + dc) 0 (GRID_COLS - 1)
         \<and> clamp (grid_col p + dc) 0 (GRID_COLS - 1) \<le> GRID_COLS - 1"
  using assms by (simp add: Player_hop_def Let_def grid_col_def clamp_def)

lemma Player_hop_in_range: "in_range p \<Longrightarrow> in_range (Player_hop now p dc dr)"
proof (cases "alive p \<and> can_hop now p")
  case True
  with Player_hop_x[of p now dc dr] show ?thesis by (simp add: in_range_def)
next
  case False
  assume "in_range p"
  with False show ?thesis by (auto simp add: Player_hop_def)
qed

lemma try_hop_in_range:
  "in_range (player g) \<Longrightarrow> in_range (player (try_hop Random now g dc dr))"
  using try_hop_player[of Random now g dc dr] by (auto simp: Player_hop_in_range)

lemma handle_event_in_range:
  "in_range (player g) \<Longrightarrow> handle_event Random g en = Some g' \<Longrightarrow> in_range (player g')"
  by (auto simp: handle_event_def Let_def try_hop_in_range
      split: event.splits if_splits)
     (simp_all add: Game_reset_player in_range_def)

lemma handle_events_in_range:
  "in_range (player g) \<Longrightarrow> handle_events Random g ens = Some g' \<Longrightarrow> in_range (player g')"
  by (induction ens arbitrary: g) (auto split: option.splits dest: handle_event_in_range)

lemma run_in_range:
  "in_range (player g) \<Longrightarrow> no_ride Random g frs \<Longrightarrow> run Random g frs = Some g'
   \<Longrightarrow> in_range (player g')"
proof (induction frs arbitrary: g)
  case Nil
  then show ?case by simp
next
  case (Cons fr frs)
  let ?g = "g\<lparr>t_total := t_total g + fst fr\<rparr>"
  from Cons.prems(3) obtain g1 where 1: "handle_events Random ?g (snd fr) = Some g1"
    and 2: "run Random (Game_update Random g1 (fst fr)) frs = Some g'"
    by (auto simp: run_frame_def split: option.splits)
  from Cons.prems(2) 1 have nr: "\<not> rides Random g1 (fst fr)"
    and nrs: "no_ride Random (Game_update Random g1 (fst fr)) frs" by simp_all
  from Cons.prems(1) have "in_range (player ?g)" by simp
  from handle_events_in_range[OF this 1] have "in_range (player g1)" .
  with Game_update_x_no_ride[OF nr] have "in_range (player (Game_update Random g1 (fst fr)))"
    by (simp add: in_range_def)
  from Cons.IH[OF this nrs 2] show ?case .
qed

text \<open>
  Claim C4 as amended: hops keep x in the playable range and ticks do not move the player
  except on a log.  An accepted hop puts x on the grid position of a column between 0 and
  GRID_COLS - 1, so between 0 and 672; a tick leaves x unchanged unless the player is alive
  on a river lane and supported by a log; hence x lies in the range from 0 to 672 in every
  state reached through frames none of whose ticks is a riding tick (a restart puts x at
  336).  In a riding tick x is not clamped (the counterexample above), and a player who is
  alive always satisfies -41 < x < 713, since beyond that \<open>Player.update\<close> has set alive
  to false.
\<close>

theorem x_bounds:
  "(alive p \<and> can_hop now p \<longrightarrow>
      x (Player_hop now p dc dr) = real_of_int (clamp (grid_col p + dc) 0 (GRID_COLS - 1) * TILE)
      \<and> 0 \<le> clamp (grid_col p + dc) 0 (GRID_COLS - 1)
      \<and> clamp (grid_col p + dc) 0 (GRID_COLS - 1) \<le> GRID_COLS - 1
      \<and> 0 \<le> x (Player_hop now p dc dr)
      \<and> x (Player_hop now p dc dr) \<le> real_of_int ((GRID_COLS - 1) * TILE))
   \<and> (\<not> rides Random g dt \<longrightarrow> x (player (Game_update Random g dt)) = x (player g))
   \<and> (in_range (player g) \<and> no_ride Random g frs \<and> run Random g frs = Some g'
        \<longrightarrow> in_range (player g'))
   \<and> (in_bounds (player g) \<and> run Random g frs = Some g' \<longrightarrow> in_bounds (player g'))"
  using Player_hop_grid[of p now dc dr] Player_hop_x[of p now dc dr]
    Game_update_x_no_ride[of Random g dt] run_in_range[of g Random frs g']
    run_in_bounds[of g Random frs g']
  by blast

lemma grass_player:
  "player (grass_game\<lparr>t_total := tt\<rparr>) = \<lparr>x = 336, row = 12, alive = True, score_best = 10,
     score = 10, last_hop_ms = 0, riding_dx = 0, hop_progress = 0, hop_animating = False\<rparr>"
  by (simp add: grass_game_def)

lemma grass_gen_lanes:
  "lanes (generate_around Random0 (world grass_game) 12) r = (if r = 12 then Some grass_lane else None)"
  by (simp add: generate_around_def grass_game_def Let_def upto.simps)

lemma grass_Lane_update: "Lane_update grass_lane dt t g = (grass_lane, g)"
  by (simp add: Lane_update_def grass_lane_def Let_def)

lemma grass_World_update:
  "lanes (fst (World_update Random0 (world grass_game) dt t 12 g)) 12 = Some grass_lane"
  by (simp add: World_update_def upto.simps grass_gen_lanes grass_Lane_update)

lemma grass_not_rides: "\<not> rides Random0 (grass_game\<lparr>t_total := tt\<rparr>) dt"
proof -
  have w: "world (grass_game\<lparr>t_total := tt\<rparr>) = world grass_game" by simp
  have "lane_at Random0 (fst (World_update Random0 (world grass_game) dt tt 12 (random grass_game))) 12
      = (grass_lane, fst (World_update Random0 (world grass_game) dt tt 12 (random grass_game)))"
    by (rule lane_at_present) (rule grass_World_update)
  then show ?thesis
    by (simp add: rides_def Let_def grass_player w) (simp add: grass_lane_def)
qed

lemma grass_run:
  "run Random0 grass_game [(1 / 10, [])]
     = Some (Game_update Random0 (grass_game\<lparr>t_total := t_total grass_game + 1 / 10\<rparr>) (1 / 10))"
  by (simp add: run_frame_def)

lemma grass_not_rides0: "\<not> rides Random0 grass_game dt"
proof -
  have "grass_game\<lparr>t_total := 5\<rparr> = grass_game" by (simp add: grass_game_def)
  with grass_not_rides[of 5 dt] show ?thesis by simp
qed

theorem x_bounds_witness:
  "alive (player grass_game) \<and> can_hop 200 (player grass_game)
   \<and> x (Player_hop 200 (player grass_game) 1 0) = 384
   \<and> \<not> rides Random0 grass_game (1 / 10)
   \<and> x (player (Game_update Random0 grass_game (1 / 10))) = 336
   \<and> in_range (player grass_game) \<and> no_ride Random0 grass_game [(1 / 10, [])]
   \<and> run Random0 grass_game [(1 / 10, [])] \<noteq> None
   \<and> in_range (player (the (run Random0 grass_game [(1 / 10, [])])))
   \<and> in_bounds (player grass_game)
   \<and> in_bounds (player (the (run Random0 grass_game [(1 / 10, [])])))"
proof -
  have p: "player grass_game = \<lparr>x = 336, row = 12, alive = True, score_best = 10,
     score = 10, last_hop_ms = 0, riding_dx = 0, hop_progress = 0, hop_animating = False\<rparr>"
    by (simp add: grass_game_def)
  have h: "alive (player grass_game)" "can_hop 200 (player grass_game)"
    "in_range (player grass_game)" "in_bounds (player grass_game)"
    by (simp_all add: p can_hop_def in_range_def in_bounds_def)
  have c: "clamp (grid_col (player grass_game) + 1) 0 14 = 8" "x (player grass_game) = 336"
    by (simp_all add: p grid_col_def py_round_def clamp_def)
  have nr: "no_ride Random0 grass_game [(1 / 10, [])]"
    by (simp add: grass_not_rides)
  from grass_run obtain g' where r: "run Random0 grass_game [(1 / 10, [])] = Some g'" by blast
  from x_bounds[of "player grass_game" 200 1 0 Random0 grass_game "1 / 10" "[(1 / 10, [])]" g']
    h nr r grass_not_rides0[of "1 / 10"]
  show ?thesis by (simp add: c)
qed

subsection \<open>Consecutive hazard lanes\<close>

text \<open>
  Claim C5 (no three consecutive hazard lanes from row 10 on) fails on the code.
  \<open>_choose_lane_type\<close> looks only at the two rows below the new row.  When a row is
  created while the rows above it exist and the rows below it do not, nothing forces it
  to grass: here rows 14, 13 and 12 are requested in this order with type rolls of 0.5 and
  all three become roads.  In a game this happens when the player has advanced far enough
  for rows to be discarded, walks back to the lowest kept row and hops down.
\<close>

theorem anti_streak_broken_by_lane_at:
  "map_option lane_type (lanes streak_world 12) = Some LANE_ROAD
   \<and> map_option lane_type (lanes streak_world 13) = Some LANE_ROAD
   \<and> map_option lane_type (lanes streak_world 14) = Some LANE_ROAD
   \<and> is_hazard (lanes streak_world 12) \<and> is_hazard (lanes streak_world 13)
   \<and> is_hazard (lanes streak_world 14)"
  by (simp add: streak_world_def World_init_def lane_at_def ensure_lane_def
      choose_lane_type_def rng_random_def rng_randint_def rng_randbelow_def rng_choice_def
      rng_uniform_def next_draw_def Lane_new_def is_hazard_def Random0_def Let_def)

subsection \<open>No gaps in the lane window\<close>

lemma generate_loop_mono:
  "lanes w r \<noteq> None \<Longrightarrow> lanes (generate_loop Random w rs) r \<noteq> None"
proof (induction rs arbitrary: w)
  case Nil
  then show ?case by simp
next
  case (Cons a rs)
  have "lanes (ensure_lane Random w a None) r \<noteq> None"
    using Cons.prems ensure_lane_present[of Random w a None] ensure_lane_other[of r a Random w None]
    by (cases "r = a") auto
  then show ?case using Cons.IH by (simp add: Let_def)
qed

lemma generate_loop_present:
  "r \<in> set rs \<Longrightarrow> lanes (generate_loop Random w rs) r \<noteq> None"
proof (induction rs arbitrary: w)
  case Nil
  then show ?case by simp
next
  case (Cons a rs)
  show ?case
  proof (cases "r = a")
    case True
    have "lanes ((ensure_lane Random w a None)\<lparr>max_generated_row := m\<rparr>) a \<noteq> None" for m
      using ensure_lane_present[of Random w a None] by simp
    from generate_loop_mono[OF this] True show ?thesis by (simp add: Let_def)
  next
    case False
    with Cons show ?thesis by (simp add: Let_def)
  qed
qed

lemma generate_loop_max_upper:
  "\<forall>r\<in>set rs. r \<le> b \<Longrightarrow>
   max_generated_row (generate_loop Random w rs) \<le> max (max_generated_row w) b"
proof (induction rs arbitrary: w)
  case Nil
  then show ?case by simp
next
  case (Cons a rs)
  let ?w = "(ensure_lane Random w a None)\<lparr>max_generated_row := max (max_generated_row w) a\<rparr>"
  from Cons.prems have "\<forall>r\<in>set rs. r \<le> b" and ab: "a \<le> b" by auto
  from Cons.IH[OF this(1), of ?w] ab show ?case
    by (simp add: Let_def ensure_lane_max)
qed

lemma generate_loop_max_lower:
  "max_generated_row w \<le> max_generated_row (generate_loop Random w rs)
   \<and> (\<forall>r\<in>set rs. r \<le> max_generated_row (generate_loop Random w rs))"
proof (induction rs arbitrary: w)
  case Nil
  then show ?case by simp
next
  case (Cons a rs)
  let ?w = "(ensure_lane Random w a None)\<lparr>max_generated_row := max (max_generated_row w) a\<rparr>"
  from Cons.IH[of ?w] show ?case
    by (auto simp add: Let_def ensure_lane_max)
qed

lemma generate_around_lanes:
  "lanes (generate_around Random w p) r =
     (if r < max 0 (p - 20) then None
      else lanes (generate_loop Random w [max_generated_row w + 1..p + 28]) r)"
  by (simp add: generate_around_def Let_def)

lemma generate_around_max:
  "max_generated_row (generate_around Random w p) =
     max_generated_row (generate_loop Random w [max_generated_row w + 1..p + 28])"
  by (simp add: generate_around_def Let_def)

lemma generate_around_no_gap:
  assumes "no_gap w k" "k \<le> max 0 (p - 20)"
  shows "no_gap (generate_around Random w p) (max 0 (p - 20))
         \<and> p + 28 \<le> max_generated_row (generate_around Random w p)"
proof -
  let ?rs = "[max_generated_row w + 1..p + 28]"
  let ?w1 = "generate_loop Random w ?rs"
  have up: "max_generated_row ?w1 \<le> max (max_generated_row w) (p + 28)"
    by (rule generate_loop_max_upper) simp
  have lo: "max_generated_row w \<le> max_generated_row ?w1"
    "\<forall>r\<in>set ?rs. r \<le> max_generated_row ?w1"
    using generate_loop_max_lower[of w Random ?rs] by auto
  have ge: "p + 28 \<le> max_generated_row ?w1"
  proof (cases "max_generated_row w + 1 \<le> p + 28")
    case True
    then have "p + 28 \<in> set ?rs" by simp
    with lo(2) show ?thesis by blast
  next
    case False
    with lo(1) show ?thesis by simp
  qed
  have pres: "lanes ?w1 r \<noteq> None" if r: "max 0 (p - 20) \<le> r" "r \<le> max_generated_row ?w1" for r
  proof (cases "r \<le> max_generated_row w")
    case True
    moreover from assms(2) r(1) have "k \<le> r" by linarith
    ultimately have "lanes w r \<noteq> None" using assms(1) unfolding no_gap_def by blast
    then show ?thesis by (rule generate_loop_mono)
  next
    case False
    with r up have "r \<in> set ?rs" by simp
    then show ?thesis by (rule generate_loop_present)
  qed
  have "no_gap (generate_around Random w p) (max 0 (p - 20))"
    unfolding no_gap_def generate_around_max
  proof (intro allI impI)
    fix r assume a: "max 0 (p - 20) \<le> r \<and> r \<le> max_generated_row ?w1"
    then have "\<not> r < max 0 (p - 20)" by linarith
    with pres[of r] a show "lanes (generate_around Random w p) r \<noteq> None"
      by (simp only: generate_around_lanes if_False) simp
  qed
  with ge show ?thesis by (simp add: generate_around_max)
qed

lemma no_gap_fold:
  assumes "no_gap w k" "sorted ps" "ps \<noteq> []" "k \<le> max 0 (hd ps - 20)"
  shows "no_gap (foldl (generate_around Random) w ps) (max 0 (last ps - 20))
         \<and> last ps + 28 \<le> max_generated_row (foldl (generate_around Random) w ps)"
  using assms
proof (induction ps arbitrary: w k)
  case Nil
  then show ?case by simp
next
  case (Cons p ps)
  from generate_around_no_gap[OF Cons.prems(1), of p Random] Cons.prems(4)
  have 1: "no_gap (generate_around Random w p) (max 0 (p - 20))"
    "p + 28 \<le> max_generated_row (generate_around Random w p)" by simp_all
  show ?case
  proof (cases "ps = []")
    case True
    with 1 show ?thesis by simp
  next
    case False
    from Cons.prems(2) False have s: "sorted ps" and "p \<le> hd ps" by (cases ps; simp)+
    then have "max 0 (p - 20) \<le> max 0 (hd ps - 20)" by simp
    from Cons.IH[OF 1(1) s False this] False show ?thesis by simp
  qed
qed


text \<open>
  Claim C6: start from a world whose \<open>max_generated_row\<close> is -1 (a fresh or a reset world)
  and call \<open>_generate_around\<close> with a non-decreasing sequence of player rows.  Then
  generation has reached at least the last player row plus AHEAD_ROWS, and every row from
  0 up to \<open>max_generated_row\<close> that is not more than BEHIND_ROWS + 8 below the last player
  row is mapped to exactly one lane.
\<close>

theorem lane_window_no_gap:
  assumes "max_generated_row w = - 1" and "sorted ps" and "ps \<noteq> []"
    and "w' = foldl (generate_around Random) w ps"
  shows "last ps + AHEAD_ROWS \<le> max_generated_row w'
         \<and> (\<forall>r. 0 \<le> r \<and> last ps - (BEHIND_ROWS + 8) \<le> r \<and> r \<le> max_generated_row w'
               \<longrightarrow> (\<exists>!l. lanes w' r = Some l))"
proof -
  from assms(1) have "no_gap w 0" by (auto simp add: no_gap_def)
  from no_gap_fold[OF this assms(2,3), of Random] assms(4)
  have "no_gap w' (max 0 (last ps - 20))" and m: "last ps + 28 \<le> max_generated_row w'"
    by simp_all
  then have "\<forall>r. 0 \<le> r \<and> last ps - 20 \<le> r \<and> r \<le> max_generated_row w' \<longrightarrow> lanes w' r \<noteq> None"
    unfolding no_gap_def by (intro allI impI) (metis max.bounded_iff)
  with m show ?thesis by auto
qed

theorem lane_window_no_gap_witness:
  "max_generated_row (World_init Random0) = - 1 \<and> sorted [2, 3, 3, 5 :: int]
   \<and> 5 + AHEAD_ROWS \<le> max_generated_row (foldl (generate_around Random0) (World_init Random0) [2, 3, 3, 5])
   \<and> (\<exists>!l. lanes (foldl (generate_around Random0) (World_init Random0) [2, 3, 3, 5]) 10 = Some l)"
proof -
  let ?w = "foldl (generate_around Random0) (World_init Random0) [2, 3, 3, 5]"
  have h: "max_generated_row (World_init Random0) = - 1" "sorted [2, 3, 3, 5 :: int]"
    by (simp_all add: World_init_def)
  from lane_window_no_gap[OF h(1) h(2) _ refl, of Random0]
  have a: "33 \<le> max_generated_row ?w"
    and b: "\<forall>r. 0 \<le> r \<and> 5 - 20 \<le> r \<and> r \<le> max_generated_row ?w \<longrightarrow> (\<exists>!l. lanes ?w r = Some l)"
    by simp_all
  from a have "0 \<le> (10::int) \<and> 5 - 20 \<le> (10::int) \<and> 10 \<le> max_generated_row ?w" by simp
  with b have "\<exists>!l. lanes ?w 10 = Some l" by blast
  with a h show ?thesis by simp
qed

subsection \<open>Rejected hops\<close>

lemma try_hop_rejected_world:
  assumes "\<not> can_hop now (player g) \<or> \<not> fst (can_move_to Random g dc dr)"
  shows "try_hop Random now g dc dr
         = g\<lparr>world := snd (lane_at Random (world g) (max 0 (Player.row (player g) + dr)))\<rparr>"
proof -
  let ?g1 = "g\<lparr>world := snd (lane_at Random (world g) (max 0 (Player.row (player g) + dr)))\<rparr>"
  have c: "snd (can_move_to Random g dc dr) = ?g1"
    by (simp add: can_move_to_def Let_def split_beta)
  show ?thesis
  proof (cases "fst (can_move_to Random g dc dr)")
    case True
    with assms have "Player_hop now (player ?g1) dc dr = player ?g1"
      by (simp add: Player_hop_def)
    with True c show ?thesis by (simp add: try_hop_def split_beta)
  next
    case False
    with c show ?thesis by (simp add: try_hop_def split_beta)
  qed
qed

text \<open>
  Claim C7 says that a rejected hop mutates no state.  \<open>_can_move_to\<close> calls
  \<open>lane_at\<close> before the cooldown is looked at, and \<open>lane_at\<close> creates the lane of
  the target row when it is absent.  For a player on the lowest kept row, a down-hop
  request 50 ms after the last hop is rejected by the cooldown, yet row 0 is generated
  again and the world's generator has advanced by three draws.
\<close>

lemma pruned_player:
  "player pruned_game = \<lparr>x = 336, row = 1, alive = True, score_best = 19, score = 19,
      last_hop_ms = 1000, riding_dx = 0, hop_progress = 1, hop_animating = False\<rparr>"
  by (simp add: pruned_game_def)

lemma pruned_lane_at:
  "lanes (snd (lane_at R (world pruned_game) 0)) 0 \<noteq> None
   \<and> snd (rng (snd (lane_at R (world pruned_game) 0))) = 3"
  by (simp add: pruned_game_def lane_at_def ensure_lane_def choose_lane_type_def rng_random_def
      rng_randint_def rng_randbelow_def rng_choice_def next_draw_def Random0_def Let_def)

theorem rejected_hop_creates_lane:
  "\<not> can_hop 1050 (player pruned_game)
   \<and> lanes (world pruned_game) 0 = None \<and> snd (rng (world pruned_game)) = 0
   \<and> handle_event Random0 pruned_game (KEYDOWN K_DOWN, 1050) \<noteq> None
   \<and> lanes (world (the (handle_event Random0 pruned_game (KEYDOWN K_DOWN, 1050)))) 0 \<noteq> None
   \<and> snd (rng (world (the (handle_event Random0 pruned_game (KEYDOWN K_DOWN, 1050))))) = 3"
proof -
  have c: "\<not> can_hop 1050 (player pruned_game)" by (simp add: pruned_player can_hop_def)
  have a: "alive (player pruned_game)" by (simp add: pruned_player)
  have w0: "lanes (world pruned_game) 0 = None \<and> snd (rng (world pruned_game)) = 0"
    by (simp add: pruned_game_def Random0_def)
  have "handle_event Random0 pruned_game (KEYDOWN K_DOWN, 1050)
      = Some (try_hop Random0 1050 pruned_game 0 (- 1))"
    using a by (simp add: handle_event_def)
  also have "try_hop Random0 1050 pruned_game 0 (- 1)
      = pruned_game\<lparr>world := snd (lane_at Random0 (world pruned_game) 0)\<rparr>"
    using try_hop_rejected_world[of 1050 pruned_game Random0 0 "- 1"] c
    by (simp add: pruned_player)
  finally show ?thesis using c w0 pruned_lane_at[of Random0] by simp
qed

text \<open>
  Claim C7 as amended: a hop request made before the cooldown has elapsed, or whose target
  cell is blocked by a tree, raises no error and leaves the whole player record (x, row,
  alive flag, scores, cooldown timestamp, animation fields) unchanged.  The only state it
  can change is the world, and only through the \<open>lane_at\<close> call of the validation: the
  game state afterwards is the state before with the world that \<open>lane_at\<close> returns
  for the target row, which is the same world when the lane of that row already exists.
\<close>

theorem illegal_hop_ignored:
  assumes "(k, dc, dr) \<in> {(K_UP, 0, 1), (K_DOWN, 0, - 1), (K_LEFT, - 1, 0), (K_RIGHT, 1, 0)}"
    and "\<not> can_hop now (player g) \<or> \<not> fst (can_move_to Random g dc dr)"
  shows "\<exists>g'. handle_event Random g (KEYDOWN k, now) = Some g' \<and> player g' = player g
           \<and> (lanes (world g) (max 0 (Player.row (player g) + dr)) \<noteq> None \<longrightarrow> g' = g)
           \<and> g' = (if alive (player g)
                   then g\<lparr>world := snd (lane_at Random (world g)
                                          (max 0 (Player.row (player g) + dr)))\<rparr>
                   else g)"
  using assms
  by (auto simp: handle_event_def try_hop_rejected try_hop_rejected_present
      try_hop_rejected_world[symmetric])

lemma blocked_Random1: "\<not> fst (can_move_to Random1 (Game_fields Random1 rnd0) 0 1)"
  by (simp add: eval_defs Random1_def)

theorem illegal_hop_ignored_witness:
  "can_hop 500 (player (Game_fields Random1 rnd0))
   \<and> \<not> fst (can_move_to Random1 (Game_fields Random1 rnd0) 0 1)
   \<and> (\<exists>g'. handle_event Random1 (Game_fields Random1 rnd0) (KEYDOWN K_UP, 500) = Some g'
          \<and> player g' = player (Game_fields Random1 rnd0))
   \<and> \<not> can_hop 1050 (player pruned_game)
   \<and> lanes (world pruned_game) 1 \<noteq> None
   \<and> handle_event Random0 pruned_game (KEYDOWN K_LEFT, 1050) = Some pruned_game"
proof -
  have a: "\<exists>g'. handle_event Random1 (Game_fields Random1 rnd0) (KEYDOWN K_UP, 500) = Some g'
          \<and> player g' = player (Game_fields Random1 rnd0)"
    using illegal_hop_ignored[of K_UP 0 1 500 "Game_fields Random1 rnd0" Random1] blocked_Random1
    by auto
  have c: "\<not> can_hop 1050 (player pruned_game)" by (simp add: pruned_player can_hop_def)
  have l: "lanes (world pruned_game) (max 0 (Player.row (player pruned_game) + 0)) \<noteq> None"
    by (simp add: pruned_game_def)
  from illegal_hop_ignored[of K_LEFT "- 1" 0 1050 pruned_game Random0] c l
  have b: "handle_event Random0 pruned_game (KEYDOWN K_LEFT, 1050) = Some pruned_game"
    by auto
  from l have l1: "lanes (world pruned_game) 1 \<noteq> None" by (simp add: pruned_player)
  show ?thesis using a b c l1 blocked_Random1 by (simp add: can_hop_def Game_fields_def)
qed

subsection \<open>Hops that land on the current cell\<close>

text \<open>
  Claim C10: for an alive player whose cooldown has elapsed, a hop whose target cell is not
  blocked and whose clamped target equals the current cell is still carried out: the
  cooldown timestamp becomes the current time and x is snapped to the grid column nearest
  to the old x, while the row and the logical column stay the same.
\<close>

theorem hop_in_place_accepted:
  assumes "(k, dc, dr) \<in> {(K_UP, 0, 1), (K_DOWN, 0, - 1), (K_LEFT, - 1, 0), (K_RIGHT, 1, 0)}"
    and "alive (player g)" and "can_hop now (player g)"
    and "fst (can_move_to Random g dc dr)"
    and "clamp (grid_col (player g) + dc) 0 (GRID_COLS - 1) = grid_col (player g)"
    and "max 0 (Player.row (player g) + dr) = Player.row (player g)"
  shows "\<exists>g'. handle_event Random g (KEYDOWN k, now) = Some g'
           \<and> last_hop_ms (player g') = now
           \<and> x (player g') = real_of_int (grid_col (player g) * TILE)
           \<and> Player.row (player g') = Player.row (player g)
           \<and> grid_col (player g') = grid_col (player g)"
proof -
  let ?p = "Player_hop now (player g) dc dr"
  have hop: "last_hop_ms ?p = now \<and> x ?p = real_of_int (grid_col (player g) * TILE)
      \<and> Player.row ?p = Player.row (player g)"
    using assms(2,3,5,6) by (simp add: Player_hop_def Let_def grid_col_def)
  then have "grid_col ?p = grid_col (player g)"
    using py_round_grid[of "grid_col (player g)"] by (simp add: grid_col_def[of ?p])
  with hop have all: "last_hop_ms ?p = now \<and> x ?p = real_of_int (grid_col (player g) * TILE)
      \<and> Player.row ?p = Player.row (player g) \<and> grid_col ?p = grid_col (player g)" by simp
  have "handle_event Random g (KEYDOWN k, now) = Some (try_hop Random now g dc dr)"
    using assms(1,2) by (auto simp: handle_event_def)
  with all try_hop_accepted[OF assms(2,3,4)] show ?thesis by simp
qed

lemma row0_game_free: "fst (can_move_to Random0 row0_game 0 (- 1))"
  by (simp add: row0_game_def eval_defs Random0_def)

theorem hop_in_place_accepted_witness:
  "alive (player row0_game) \<and> can_hop 500 (player row0_game)
   \<and> fst (can_move_to Random0 row0_game 0 (- 1))
   \<and> grid_col (player row0_game) = 7 \<and> x (player row0_game) = 340
   \<and> Player.row (player row0_game) = 0
   \<and> (\<exists>g'. handle_event Random0 row0_game (KEYDOWN K_DOWN, 500) = Some g'
          \<and> last_hop_ms (player g') = 500 \<and> x (player g') = 336
          \<and> Player.row (player g') = 0 \<and> grid_col (player g') = 7)"
proof -
  have p: "player row0_game = \<lparr>x = 340, row = 0, alive = True, score_best = 0, score = 0,
      last_hop_ms = 0, riding_dx = 0, hop_progress = 0, hop_animating = False\<rparr>"
    by (simp add: row0_game_def Game_fields_def)
  have col: "grid_col (player row0_game) = 7"
    by (simp add: p grid_col_def py_round_def)
  have "\<exists>g'. handle_event Random0 row0_game (KEYDOWN K_DOWN, 500) = Some g'
           \<and> last_hop_ms (player g') = 500
           \<and> x (player g') = real_of_int (grid_col (player row0_game) * TILE)
           \<and> Player.row (player g') = Player.row (player row0_game)
           \<and> grid_col (player g') = grid_col (player row0_game)"
    by (rule hop_in_place_accepted[of K_DOWN 0 "- 1"])
       (simp_all add: row0_game_free col, simp_all add: p can_hop_def clamp_def)
  then show ?thesis using row0_game_free by (simp add: col, simp add: p can_hop_def)
qed

subsection \<open>Deterministic generation\<close>

lemma same_generation_refl: "same_generation w w"
  by (simp add: same_generation_def)

lemma same_generation_sym: "same_generation w1 w2 \<Longrightarrow> same_generation w2 w1"
  by (simp add: same_generation_def)

lemma same_generation_trans:
  "same_generation w1 w2 \<Longrightarrow> same_generation w2 w3 \<Longrightarrow> same_generation w1 w3"
  by (simp add: same_generation_def)

lemma same_generation_hazard:
  "same_generation w1 w2 \<Longrightarrow> is_hazard (lanes w1 r) = is_hazard (lanes w2 r)"
proof -
  assume "same_generation w1 w2"
  then have "map_option static (lanes w1 r) = map_option static (lanes w2 r)"
    by (simp add: same_generation_def)
  then show ?thesis
    by (cases "lanes w1 r"; cases "lanes w2 r") (auto simp: is_hazard_def static_def)
qed

lemma same_generation_present:
  "same_generation w1 w2 \<Longrightarrow> (lanes w1 r = None) = (lanes w2 r = None)"
proof -
  assume "same_generation w1 w2"
  then have "map_option static (lanes w1 r) = map_option static (lanes w2 r)"
    by (simp add: same_generation_def)
  then show ?thesis by (cases "lanes w1 r"; cases "lanes w2 r") auto
qed

lemma choose_lane_type_same:
  assumes "same_generation w1 w2"
  shows "fst (choose_lane_type w1 r) = fst (choose_lane_type w2 r)
         \<and> rng (snd (choose_lane_type w1 r)) = rng (snd (choose_lane_type w2 r))"
proof -
  from assms have g: "rng w1 = rng w2" by (simp add: same_generation_def)
  from assms have h: "is_hazard (lanes w1 (r - 1)) = is_hazard (lanes w2 (r - 1))"
    "is_hazard (lanes w1 (r - 2)) = is_hazard (lanes w2 (r - 2))"
    by (simp_all add: same_generation_hazard)
  show ?thesis by (simp add: choose_lane_type_def g h Let_def split_beta)
qed

lemma ensure_lane_view:
  assumes "lanes w r = None"
  shows "\<exists>f. (\<forall>w'. lanes w' r = None \<longrightarrow> rng w' = rng w \<longrightarrow>
              fst (choose_lane_type w' r) = fst (choose_lane_type w r) \<longrightarrow>
              rng (snd (choose_lane_type w' r)) = rng (snd (choose_lane_type w r)) \<longrightarrow>
              rng (ensure_lane Random w' r ft) = snd f
              \<and> lanes (ensure_lane Random w' r ft) r = Some (fst f))"
proof -
  define lt where "lt = (case ft of None \<Rightarrow> fst (choose_lane_type w r) | Some t \<Rightarrow> t)"
  define g0 where "g0 = (case ft of None \<Rightarrow> rng (snd (choose_lane_type w r)) | Some t \<Rightarrow> rng w)"
  define w0 where "w0 = w\<lparr>lanes := Map.empty, rng := g0\<rparr>"
  let ?f = "(the (lanes (ensure_lane Random w0 r (Some lt)) r), rng (ensure_lane Random w0 r (Some lt)))"
  have "rng (ensure_lane Random w' r ft) = snd ?f \<and> lanes (ensure_lane Random w' r ft) r = Some (fst ?f)"
    if a: "lanes w' r = None" "rng w' = rng w" "fst (choose_lane_type w' r) = fst (choose_lane_type w r)"
      "rng (snd (choose_lane_type w' r)) = rng (snd (choose_lane_type w r))" for w'
  proof (cases ft)
    case None
    then show ?thesis using a
      by (simp add: ensure_lane_def split_beta w0_def g0_def lt_def choose_lane_type_snd)
  next
    case (Some t)
    then show ?thesis using a
      by (simp add: ensure_lane_def split_beta w0_def g0_def lt_def)
  qed
  then show ?thesis by blast
qed

lemma ensure_lane_same:
  assumes "same_generation w1 w2"
  shows "same_generation (ensure_lane Random w1 r ft) (ensure_lane Random w2 r ft)"
proof (cases "lanes w1 r")
  case (Some l)
  with same_generation_present[OF assms, of r] have "lanes w2 r \<noteq> None" by simp
  with Some assms show ?thesis by (simp add: ensure_lane_noop)
next
  case None
  with same_generation_present[OF assms, of r] have n2: "lanes w2 r = None" by simp
  from assms have g: "rng w2 = rng w1" by (simp add: same_generation_def)
  from ensure_lane_view[OF None, of Random ft] obtain f where
    f: "\<And>w'. lanes w' r = None \<Longrightarrow> rng w' = rng w1 \<Longrightarrow>
              fst (choose_lane_type w' r) = fst (choose_lane_type w1 r) \<Longrightarrow>
              rng (snd (choose_lane_type w' r)) = rng (snd (choose_lane_type w1 r)) \<Longrightarrow>
              rng (ensure_lane Random w' r ft) = snd f
              \<and> lanes (ensure_lane Random w' r ft) r = Some (fst f)"
    by blast
  from f[of w1] None have 1: "rng (ensure_lane Random w1 r ft) = snd f"
    "lanes (ensure_lane Random w1 r ft) r = Some (fst f)" by simp_all
  from f[of w2] n2 g choose_lane_type_same[OF assms, of r]
  have 2: "rng (ensure_lane Random w2 r ft) = snd f"
    "lanes (ensure_lane Random w2 r ft) r = Some (fst f)" by simp_all
  show ?thesis unfolding same_generation_def
  proof (intro conjI allI)
    show "rng (ensure_lane Random w1 r ft) = rng (ensure_lane Random w2 r ft)" using 1 2 by simp
    show "max_generated_row (ensure_lane Random w1 r ft) = max_generated_row (ensure_lane Random w2 r ft)"
      using assms by (simp add: ensure_lane_max same_generation_def)
    fix r'
    show "map_option static (lanes (ensure_lane Random w1 r ft) r')
        = map_option static (lanes (ensure_lane Random w2 r ft) r')"
    proof (cases "r' = r")
      case True
      with 1 2 show ?thesis by simp
    next
      case False
      with assms show ?thesis by (simp add: ensure_lane_other same_generation_def)
    qed
  qed
qed

lemma reset_loop_same:
  "same_generation w1 w2 \<Longrightarrow> same_generation (reset_loop Random w1 rs) (reset_loop Random w2 rs)"
  by (induction rs arbitrary: w1 w2) (simp_all add: ensure_lane_same)

lemma same_generation_set_max:
  "same_generation w1 w2 \<Longrightarrow>
   same_generation (w1\<lparr>max_generated_row := max (max_generated_row w1) r\<rparr>)
     (w2\<lparr>max_generated_row := max (max_generated_row w2) r\<rparr>)"
  by (simp add: same_generation_def)

lemma generate_loop_same:
  "same_generation w1 w2 \<Longrightarrow>
   same_generation (generate_loop Random w1 rs) (generate_loop Random w2 rs)"
proof (induction rs arbitrary: w1 w2)
  case Nil
  then show ?case by simp
next
  case (Cons r rs)
  from Cons.prems have "same_generation (ensure_lane Random w1 r None) (ensure_lane Random w2 r None)"
    by (rule ensure_lane_same)
  then have "same_generation
      ((ensure_lane Random w1 r None)\<lparr>max_generated_row := max (max_generated_row (ensure_lane Random w1 r None)) r\<rparr>)
      ((ensure_lane Random w2 r None)\<lparr>max_generated_row := max (max_generated_row (ensure_lane Random w2 r None)) r\<rparr>)"
    by (rule same_generation_set_max)
  from Cons.IH[OF this] show ?case by (simp add: Let_def)
qed

lemma generate_around_same:
  assumes "same_generation w1 w2"
  shows "same_generation (generate_around Random w1 p) (generate_around Random w2 p)"
proof -
  from assms have m: "max_generated_row w2 = max_generated_row w1" by (simp add: same_generation_def)
  from generate_loop_same[OF assms, of Random "[max_generated_row w1 + 1..p + 28]"]
  show ?thesis by (simp add: generate_around_def Let_def m same_generation_def)
qed

lemma update_loop_view:
  "same_generation (fst (update_loop w dt t g rs)) w"
proof (induction w dt t g rs rule: update_loop.induct)
  case (1 w dt t_total g)
  then show ?case by (simp add: same_generation_refl)
next
  case (2 w dt t_total g r rs)
  show ?case
  proof (cases "r < 0 \<or> lanes w r = None")
    case True
    with 2 show ?thesis by auto
  next
    case False
    then obtain lane where lane: "lanes w r = Some lane" and r: "\<not> r < 0" by auto
    obtain lane' g' where lu: "Lane_update lane dt t_total g = (lane', g')"
      by (cases "Lane_update lane dt t_total g")
    from Lane_update_static[of lane dt t_total g] lu have "static lane' = static lane" by simp
    with lane have "same_generation (w\<lparr>lanes := (lanes w)(r \<mapsto> lane')\<rparr>) w"
      by (simp add: same_generation_def)
    with "2.IH"(3)[OF r lane lu[symmetric]]
    have "same_generation (fst (update_loop (w\<lparr>lanes := (lanes w)(r \<mapsto> lane')\<rparr>) dt t_total g' rs)) w"
      by (rule same_generation_trans)
    with lane r lu show ?thesis by simp
  qed
qed

lemma World_update_same:
  assumes "same_generation w1 w2"
  shows "same_generation (fst (World_update Random w1 dt1 t1 p g1))
           (fst (World_update Random w2 dt2 t2 p g2))"
proof -
  let ?a = "generate_around Random w1 p" and ?b = "generate_around Random w2 p"
  have "same_generation (fst (World_update Random w1 dt1 t1 p g1)) ?a"
    by (simp add: World_update_def update_loop_view)
  moreover have "same_generation ?a ?b" using assms by (rule generate_around_same)
  moreover have "same_generation ?b (fst (World_update Random w2 dt2 t2 p g2))"
    by (simp add: World_update_def update_loop_view same_generation_sym)
  ultimately show ?thesis by (blast intro: same_generation_trans)
qed

lemma World_reset_same:
  assumes "fst (rng_randint 0 10000000 ga) = fst (rng_randint 0 10000000 gb)"
  shows "same_generation (fst (World_reset Random wa ga)) (fst (World_reset Random wb gb))"
proof -
  let ?s = "fst (rng_randint 0 10000000 ga)"
  have "same_generation (wa\<lparr>lanes := Map.empty, rng := Random ?s, max_generated_row := - 1\<rparr>)
          (wb\<lparr>lanes := Map.empty, rng := Random ?s, max_generated_row := - 1\<rparr>)"
    by (simp add: same_generation_def)
  from reset_loop_same[OF this, of Random "[0..7]"] assms show ?thesis
    by (simp add: World_reset_def split_beta)
qed

lemma World_run_same:
  assumes "same_generation (fst a) (fst b)" "map (\<lambda>s. snd (snd s)) sa = map (\<lambda>s. snd (snd s)) sb"
  shows "same_generation (fst (World_run Random a sa)) (fst (World_run Random b sb))"
  using assms
proof (induction sa arbitrary: a b sb)
  case Nil
  then show ?case by simp
next
  case (Cons s sa)
  then obtain s' sb' where sb: "sb = s' # sb'" by (cases sb) auto
  with Cons.prems have p: "snd (snd s') = snd (snd s)"
    and m: "map (\<lambda>s. snd (snd s)) sa = map (\<lambda>s. snd (snd s)) sb'" by simp_all
  let ?a = "World_update Random (fst a) (fst s) (fst (snd s)) (snd (snd s)) (snd a)"
  let ?b = "World_update Random (fst b) (fst s') (fst (snd s')) (snd (snd s')) (snd b)"
  from World_update_same[OF Cons.prems(1)] have "same_generation (fst ?a) (fst ?b)"
    unfolding p .
  from Cons.IH[OF this m] sb show ?case by simp
qed

lemma Lane_update_tree: "has_tree_at (fst (Lane_update l dt t g)) c = has_tree_at l c"
  using Lane_update_static[of l dt t g] by (simp add: static_def has_tree_at_def)

lemma can_move_to_lane:
  assumes "lanes (world g) (max 0 (Player.row (player g) + dr)) = Some l"
  shows "fst (can_move_to Random g dc dr)
         = (\<not> (lane_type l = LANE_GRASS
               \<and> has_tree_at l (clamp (grid_col (player g) + dc) 0 (GRID_COLS - 1))))"
  using assms by (simp add: can_move_to_def lane_at_def Let_def ensure_lane_noop)


text \<open>
  Claim C8: take two runs of the world that are reset with the same generation seed and
  then updated for the same sequence of player rows, with any frame times and any draws of
  the module-level generator (which decides the traffic).  At every row the two worlds hold
  lanes with the same type, direction, speed, decoration seed and blocked columns (or both
  hold none).  The blocked columns of a grass lane are the ones drawn from its decoration
  seed; \<open>Lane.update\<close> never changes the answer of \<open>has_tree_at\<close>; and \<open>_can_move_to\<close>
  decides with \<open>has_tree_at\<close> of the lane stored at the target row.
\<close>

theorem generation_deterministic:
  assumes "fst (rng_randint 0 10000000 ga) = fst (rng_randint 0 10000000 gb)"
    and "map (\<lambda>s. snd (snd s)) sa = map (\<lambda>s. snd (snd s)) sb"
    and "wa' = fst (World_run Random (World_reset Random wa ga) sa)"
    and "wb' = fst (World_run Random (World_reset Random wb gb) sb)"
  shows "(\<forall>r. map_option static (lanes wa' r) = map_option static (lanes wb' r))
         \<and> (\<forall>r l. lanes wa' r = Some l \<and> lane_type l = LANE_GRASS \<longrightarrow>
               tree_positions l =
                 tree_loop (Random (decoration_seed l + 1000)) [0..GRID_COLS - 1] [])
         \<and> (\<forall>l dt t g c. has_tree_at (fst (Lane_update l dt t g)) c = has_tree_at l c)
         \<and> (\<forall>g l dc dr. lanes (world g) (max 0 (Player.row (player g) + dr)) = Some l \<longrightarrow>
               fst (can_move_to Random g dc dr)
               = (\<not> (lane_type l = LANE_GRASS
                     \<and> has_tree_at l (clamp (grid_col (player g) + dc) 0 (GRID_COLS - 1)))))"
proof -
  from World_reset_same[OF assms(1), of Random wa wb]
  have "same_generation (fst (World_reset Random wa ga)) (fst (World_reset Random wb gb))" .
  from World_run_same[OF this assms(2), of Random] assms(3,4)
  have 1: "same_generation wa' wb'" by simp
  have "world_ok Random wa'"
    unfolding assms(3) by (rule World_run_ok) (rule World_reset_ok)
  then have 2: "\<forall>r l. lanes wa' r = Some l \<and> lane_type l = LANE_GRASS \<longrightarrow>
               tree_positions l =
                 tree_loop (Random (decoration_seed l + 1000)) [0..GRID_COLS - 1] []"
    by (auto simp: world_ok_def lane_ok_def)
  from 1 2 show ?thesis
    by (simp add: same_generation_def Lane_update_tree can_move_to_lane)
qed

theorem generation_deterministic_witness:
  "fst (rng_randint 0 10000000 rnd0) = fst (rng_randint 0 10000000 rnd1)
   \<and> map_option static
       (lanes (fst (World_run Random0 (World_reset Random0 (World_init Random0) rnd0)
                      [(16 / 1000, 16 / 1000, 2)])) 9)
     = map_option static
         (lanes (fst (World_run Random0 (World_reset Random0 streak_world rnd1)
                        [(1 / 10, 5, 2)])) 9)"
proof -
  have s: "fst (rng_randint 0 10000000 rnd0) = fst (rng_randint 0 10000000 rnd1)"
    by (simp add: rng_randint_def rng_randbelow_def next_draw_def rnd0_def rnd1_def)
  have m: "map (\<lambda>s. snd (snd s)) [(16 / 1000 :: real, 16 / 1000 :: real, 2 :: int)]
      = map (\<lambda>s. snd (snd s)) [(1 / 10, 5, 2)]" by simp
  from generation_deterministic[OF s m refl refl, of Random0 "World_init Random0" streak_world]
  have "\<forall>r. map_option static
       (lanes (fst (World_run Random0 (World_reset Random0 (World_init Random0) rnd0)
                      [(16 / 1000, 16 / 1000, 2)])) r)
     = map_option static
         (lanes (fst (World_run Random0 (World_reset Random0 streak_world rnd1)
                        [(1 / 10, 5, 2)])) r)"
    by blast
  with s show ?thesis by blast
qed

subsection \<open>Death is terminal\<close>

lemma handle_event_dead:
  "\<not> alive (player g) \<Longrightarrow> fst en \<noteq> KEYDOWN K_r \<Longrightarrow> handle_event Random g en = Some g'
   \<Longrightarrow> g' = g"
  by (auto simp: handle_event_def split: event.splits if_splits)

lemma handle_events_dead:
  "\<not> alive (player g) \<Longrightarrow> list_all (\<lambda>en. fst en \<noteq> KEYDOWN K_r) ens
   \<Longrightarrow> handle_events Random g ens = Some g' \<Longrightarrow> g' = g"
proof (induction ens arbitrary: g)
  case Nil
  then show ?case by simp
next
  case (Cons en ens)
  then obtain g1 where 1: "handle_event Random g en = Some g1"
    and 2: "handle_events Random g1 ens = Some g'"
    by (auto split: option.splits)
  from Cons.prems 1 have 3: "g1 = g" by (auto dest: handle_event_dead)
  from Cons.prems have "list_all (\<lambda>en. fst en \<noteq> KEYDOWN K_r) ens" by simp
  with Cons.IH[of g] Cons.prems(1) 2 3 show ?case by simp
qed

lemma run_frame_dead:
  assumes "\<not> alive (player g)" "list_all (\<lambda>en. fst en \<noteq> KEYDOWN K_r) (snd fr)"
    "run_frame Random g fr = Some g'"
  shows "player g' = player g \<and> world g' = world g"
proof -
  let ?g = "g\<lparr>t_total := t_total g + fst fr\<rparr>"
  from assms(3) obtain g1 where 1: "handle_events Random ?g (snd fr) = Some g1"
    and 2: "g' = Game_update Random g1 (fst fr)"
    by (auto simp: run_frame_def split: option.splits)
  from assms(1) have d: "\<not> alive (player ?g)" by simp
  from handle_events_dead[OF d assms(2) 1] have 3: "g1 = ?g" .
  with d 2 show ?thesis by (simp add: Game_update_dead)
qed

text \<open>
  Claim C9: once the player is not alive, every later frame that contains no restart
  command leaves the whole player record (position, row, score, best score, alive flag)
  as it is, whatever hop commands arrive; a reset makes the player alive again.
\<close>

theorem dead_is_terminal:
  assumes "\<not> alive (player g)"
    and "list_all (\<lambda>fr. list_all (\<lambda>en. fst en \<noteq> KEYDOWN K_r) (snd fr)) frs"
    and "run Random g frs = Some g'"
  shows "player g' = player g \<and> alive (player (Game_reset Random g'))"
proof -
  have "player g' = player g" using assms
  proof (induction frs arbitrary: g)
    case Nil
    then show ?case by simp
  next
    case (Cons fr frs)
    then obtain g1 where 1: "run_frame Random g fr = Some g1"
      and 2: "run Random g1 frs = Some g'"
      by (auto split: option.splits)
    from Cons.prems have nr: "list_all (\<lambda>en. fst en \<noteq> KEYDOWN K_r) (snd fr)" by simp
    from run_frame_dead[OF Cons.prems(1) nr 1] have 3: "player g1 = player g" by simp
    with Cons.prems have "\<not> alive (player g1)" by simp
    moreover from Cons.prems
    have "list_all (\<lambda>fr. list_all (\<lambda>en. fst en \<noteq> KEYDOWN K_r) (snd fr)) frs" by simp
    ultimately have "player g' = player g1" using 2 by (rule Cons.IH)
    with 3 show ?case by simp
  qed
  then show ?thesis by (simp add: Game_reset_alive)
qed

theorem dead_is_terminal_witness:
  "\<not> alive (player dead_game)
   \<and> run Random0 dead_game [(16 / 1000, [(KEYDOWN K_UP, 500)]), (17 / 1000, [])]
       = Some (dead_game\<lparr>t_total := 33 / 1000, game_over := True\<rparr>)
   \<and> player (dead_game\<lparr>t_total := 33 / 1000, game_over := True\<rparr>) = player dead_game
   \<and> alive (player (Game_reset Random0 (dead_game\<lparr>t_total := 33 / 1000, game_over := True\<rparr>)))"
proof -
  have d: "\<not> alive (player dead_game)"
    by (simp add: dead_game_def)
  have r: "run Random0 dead_game [(16 / 1000, [(KEYDOWN K_UP, 500)]), (17 / 1000, [])]
       = Some (dead_game\<lparr>t_total := 33 / 1000, game_over := True\<rparr>)"
    by (simp add: run_frame_def handle_event_def Game_update_dead d)
       (simp add: dead_game_def Game_fields_def)
  from dead_is_terminal[OF d _ r] d r show ?thesis by simp
qed

end
